theory Spec2Isabelle
  imports Main "HOL-Library.Word"
begin

section \<open>Go standard library: package strings\<close>

text \<open>
  Go strings are byte sequences; a \<^typ>\<open>string\<close> is a list of 8-bit characters.
  The functions below are the ones the program calls, with the meaning the Go
  documentation gives them.
\<close>

definition strings_HasPrefix :: "string \<Rightarrow> string \<Rightarrow> bool" where
  "strings_HasPrefix s p = (take (length p) s = p)"

definition strings_TrimPrefix :: "string \<Rightarrow> string \<Rightarrow> string" where
  "strings_TrimPrefix s p = (if strings_HasPrefix s p then drop (length p) s else s)"

definition strings_HasSuffix :: "string \<Rightarrow> string \<Rightarrow> bool" where
  "strings_HasSuffix s p = (length p \<le> length s \<and> drop (length s - length p) s = p)"

definition strings_TrimSuffix :: "string \<Rightarrow> string \<Rightarrow> string" where
  "strings_TrimSuffix s p =
     (if strings_HasSuffix s p then take (length s - length p) s else s)"

fun strings_Contains :: "string \<Rightarrow> string \<Rightarrow> bool" where
  "strings_Contains [] sub = (sub = [])"
| "strings_Contains (c # cs) sub =
     (strings_HasPrefix (c # cs) sub \<or> strings_Contains cs sub)"

text \<open>
  \<open>strings.ToLower\<close> on ASCII input maps \<open>A\<close>..\<open>Z\<close> to \<open>a\<close>..\<open>z\<close> and keeps every
  other byte. Bytes above 127 are kept as they are here (Go would apply the Unicode
  case mapping to them): the model covers ASCII path names.
\<close>

definition asciiLower :: "char \<Rightarrow> char" where
  "asciiLower c =
     (case map_of (zip ''ABCDEFGHIJKLMNOPQRSTUVWXYZ'' ''abcdefghijklmnopqrstuvwxyz'') c of
        Some d \<Rightarrow> d
      | None \<Rightarrow> c)"

definition strings_ToLower :: "string \<Rightarrow> string" where
  "strings_ToLower s = map asciiLower s"

text \<open>
  \<open>strings.TrimSpace\<close> removes leading and trailing white space (ASCII: space, tab,
  newline, vertical tab, form feed, carriage return).
\<close>

definition isSpace :: "char \<Rightarrow> bool" where
  "isSpace c = (c \<in> set [CHR '' '', CHR 0x09, CHR 0x0A, CHR 0x0B, CHR 0x0C, CHR 0x0D])"

definition strings_TrimSpace :: "string \<Rightarrow> string" where
  "strings_TrimSpace s = rev (dropWhile isSpace (rev (dropWhile isSpace s)))"

text \<open>
  \<open>strings.SplitN(s, "/", 2)\<close>: the text before the first separator and the text after
  it, or \<open>s\<close> alone when it holds no separator.
\<close>

definition strings_SplitN2 :: "string \<Rightarrow> string list" where
  "strings_SplitN2 s =
     (case dropWhile (\<lambda>c. c \<noteq> CHR ''/'') s of
        [] \<Rightarrow> [s]
      | _ # rest \<Rightarrow> [takeWhile (\<lambda>c. c \<noteq> CHR ''/'') s, rest])"


section \<open>Go standard library: package path/filepath (Unix)\<close>

text \<open>The separator is \<open>/\<close>; there are no volume names.\<close>

fun splitSep :: "string \<Rightarrow> string \<Rightarrow> string list" where
  "splitSep [] cur = [rev cur]"
| "splitSep (c # cs) cur =
     (if c = CHR ''/'' then rev cur # splitSep cs [] else splitSep cs (c # cur))"

fun joinSep :: "string list \<Rightarrow> string" where
  "joinSep [] = []"
| "joinSep [e] = e"
| "joinSep (e # f # es) = e @ CHR ''/'' # joinSep (f # es)"

text \<open>
  \<open>filepath.Clean\<close>, element by element. \<open>out\<close> is the stack of elements kept so far,
  the last one first: an empty element and \<open>.\<close> are dropped, \<open>..\<close> removes the element
  before it, is dropped at the root, and is kept at the start of a relative path.
\<close>

fun cleanElems :: "bool \<Rightarrow> string list \<Rightarrow> string list \<Rightarrow> string list" where
  "cleanElems rooted [] out = rev out"
| "cleanElems rooted (e # es) out =
     (if e = [] \<or> e = ''.'' then cleanElems rooted es out
      else if e = ''..'' then
        (case out of
           [] \<Rightarrow> if rooted then cleanElems rooted es [] else cleanElems rooted es [e]
         | prev # below \<Rightarrow>
             if prev \<noteq> ''..'' then cleanElems rooted es below
             else if rooted then cleanElems rooted es out
             else cleanElems rooted es (e # out))
      else cleanElems rooted es (e # out))"

definition filepath_Clean :: "string \<Rightarrow> string" where
  "filepath_Clean path =
     (if path = [] then ''.''
      else
        let rooted = (hd path = CHR ''/'');
            body = joinSep (cleanElems rooted (splitSep path []) [])
        in if rooted then CHR ''/'' # body
           else if body = [] then ''.''
           else body)"

text \<open>\<open>filepath.Join\<close>: leading empty elements are skipped, the rest is joined and cleaned.\<close>

fun filepath_Join :: "string list \<Rightarrow> string" where
  "filepath_Join [] = []"
| "filepath_Join (e # es) =
     (if e \<noteq> [] then filepath_Clean (joinSep (e # es)) else filepath_Join es)"

declare filepath_Join.simps [simp del]

definition filepath_Base :: "string \<Rightarrow> string" where
  "filepath_Base path =
     (if path = [] then ''.''
      else
        let stripped = rev (dropWhile (\<lambda>c. c = CHR ''/'') (rev path));
            elem = rev (takeWhile (\<lambda>c. c \<noteq> CHR ''/'') (rev stripped))
        in if elem = [] then ''/'' else elem)"

text \<open>
  \<open>filepath.Ext\<close> scans from the end of the path to the last separator and returns the
  suffix that starts at the first dot it meets.
\<close>

fun extScan :: "string \<Rightarrow> string \<Rightarrow> string" where
  "extScan [] acc = []"
| "extScan (c # cs) acc =
     (if c = CHR ''/'' then []
      else if c = CHR ''.'' then c # acc
      else extScan cs (c # acc))"

definition filepath_Ext :: "string \<Rightarrow> string" where
  "filepath_Ext path = extScan (rev path) []"

definition filepath_Dir :: "string \<Rightarrow> string" where
  "filepath_Dir path = filepath_Clean (rev (dropWhile (\<lambda>c. c \<noteq> CHR ''/'') (rev path)))"

definition filepath_IsAbs :: "string \<Rightarrow> bool" where
  "filepath_IsAbs path = strings_HasPrefix path ''/''"


section \<open>internal/scanner: the classifier\<close>

text \<open>
  A loop of the form \<open>for _, pattern := range patterns { if strings.Contains(name,
  pattern) { return ... } }\<close>: does some pattern occur in \<open>name\<close>?
\<close>

primrec containsAny :: "string \<Rightarrow> string list \<Rightarrow> bool" where
  "containsAny name [] = False"
| "containsAny name (pattern # patterns) =
     (if strings_Contains name pattern then True else containsAny name patterns)"

definition keyPatterns :: "string list" where
  "keyPatterns = [''key'', ''secret'', ''credential'', ''token'', ''password'',
     ''private'', ''pem'', ''p12'', ''pfx'', ''keystore'']"

definition buildDirs :: "string list" where
  "buildDirs = [''node_modules'', ''dist'', ''build'', ''.next'', ''__pycache__'',
     ''target'', ''bin'', ''obj'']"

definition ideDirs :: "string list" where
  "ideDirs = [''.idea'', ''.vscode'', ''.vs'']"

primrec inBuildDirs :: "string \<Rightarrow> string list \<Rightarrow> bool" where
  "inBuildDirs path [] = False"
| "inBuildDirs path (dir # dirs) =
     (if strings_Contains path (dir @ ''/'') \<or> strings_HasPrefix path (dir @ ''/'')
         \<or> path = dir
      then True else inBuildDirs path dirs)"

primrec inIdeDirs :: "string \<Rightarrow> string list \<Rightarrow> bool" where
  "inIdeDirs path [] = False"
| "inIdeDirs path (dir # dirs) =
     (if strings_HasPrefix path (dir @ ''/'') \<or> path = dir
      then True else inIdeDirs path dirs)"

definition categorizeFile :: "string \<Rightarrow> string" where
  "categorizeFile path =
     (let name = strings_ToLower (filepath_Base path);
          ext = strings_ToLower (filepath_Ext path)
      in
        if strings_HasPrefix name ''.env'' \<or> strings_HasPrefix name ''env.'' then ''env''
        else if containsAny name keyPatterns then ''key''
        else if ext = ''.pem'' \<or> ext = ''.key'' \<or> ext = ''.p12'' \<or> ext = ''.pfx''
          then ''key''
        else if (ext = ''.json'' \<or> ext = ''.yaml'' \<or> ext = ''.yml'' \<or> ext = ''.toml''
                   \<or> ext = ''.ini'')
                \<and> (strings_Contains name ''config'' \<or> strings_Contains name ''setting'')
          then ''config''
        else if inBuildDirs path buildDirs then ''build''
        else if strings_Contains path ''cache''
                \<or> strings_HasPrefix name ''.'' \<and> strings_Contains name ''cache''
          then ''cache''
        else if inIdeDirs path ideDirs then ''ide''
        else ''other'')"

definition secretPatterns :: "string list" where
  "secretPatterns = [''secret'', ''credential'', ''password'', ''token'',
     ''auth'', ''api_key'', ''apikey'', ''.npmrc'', ''.netrc'',
     ''id_rsa'', ''id_dsa'', ''id_ecdsa'', ''id_ed25519'']"

definition isSecretFile :: "string \<Rightarrow> string \<Rightarrow> bool" where
  "isSecretFile path category =
     (if category = ''env'' \<or> category = ''key'' then True
      else containsAny (strings_ToLower (filepath_Base path)) secretPatterns)"

definition depsDirs :: "string list" where
  "depsDirs = [''node_modules/'', ''vendor/'', ''.venv/'', ''venv/'', ''__pycache__/'',
     ''.gradle/'', ''target/'', ''Pods/'']"

primrec inDepsDirs :: "string \<Rightarrow> string list \<Rightarrow> bool" where
  "inDepsDirs path [] = False"
| "inDepsDirs path (dir # dirs) =
     (if strings_HasPrefix path dir \<or> strings_Contains path (''/'' @ dir)
      then True else inDepsDirs path dirs)"

definition isInDepsDir :: "string \<Rightarrow> bool" where
  "isInDepsDir path = inDepsDirs path depsDirs"


section \<open>The rules of the classifier, one predicate per category\<close>

text \<open>
  The condition under which each branch of \<open>categorizeFile\<close> fires, stated over sets:
  the precedence theorem relates the function to them.
\<close>

definition envRule :: "string \<Rightarrow> bool" where
  "envRule path =
     (strings_HasPrefix (strings_ToLower (filepath_Base path)) ''.env''
      \<or> strings_HasPrefix (strings_ToLower (filepath_Base path)) ''env.'')"

definition keyRule :: "string \<Rightarrow> bool" where
  "keyRule path =
     ((\<exists>pattern \<in> set keyPatterns.
          strings_Contains (strings_ToLower (filepath_Base path)) pattern)
      \<or> strings_ToLower (filepath_Ext path) \<in> {''.pem'', ''.key'', ''.p12'', ''.pfx''})"

definition configRule :: "string \<Rightarrow> bool" where
  "configRule path =
     (strings_ToLower (filepath_Ext path) \<in> {''.json'', ''.yaml'', ''.yml'', ''.toml'', ''.ini''}
      \<and> (strings_Contains (strings_ToLower (filepath_Base path)) ''config''
           \<or> strings_Contains (strings_ToLower (filepath_Base path)) ''setting''))"

definition buildRule :: "string \<Rightarrow> bool" where
  "buildRule path =
     (\<exists>dir \<in> set buildDirs.
        strings_Contains path (dir @ ''/'') \<or> strings_HasPrefix path (dir @ ''/'') \<or> path = dir)"

definition cacheRule :: "string \<Rightarrow> bool" where
  "cacheRule path =
     (strings_Contains path ''cache''
      \<or> (strings_HasPrefix (strings_ToLower (filepath_Base path)) ''.''
           \<and> strings_Contains (strings_ToLower (filepath_Base path)) ''cache''))"

definition ideRule :: "string \<Rightarrow> bool" where
  "ideRule path =
     (\<exists>dir \<in> set ideDirs. strings_HasPrefix path (dir @ ''/'') \<or> path = dir)"

text \<open>
  The build rule as the specification words it: one of the build directory names is a
  whole segment of the path.
\<close>

definition hasBuildSegment :: "string \<Rightarrow> bool" where
  "hasBuildSegment path = (\<exists>dir \<in> set buildDirs. dir \<in> set (splitSep path []))"


section \<open>The machine: file system, working directory, external tools\<close>

text \<open>
  A file system maps a path name to what is there: a directory with its permission
  bits, or a regular file with its bytes and permission bits. Path names are the cleaned
  names that \<open>filepath.Join\<close> and \<open>filepath.Dir\<close> produce; a relative name is
  understood from the working directory. The root and the working directory always
  exist. Symbolic links, owners and access rights are not modelled: an operation fails
  only for the shape of the tree (a missing parent, a file where a directory is needed,
  a directory where a file is needed).
\<close>

datatype node = Dir nat | File "char list" nat

type_synonym fs = "string \<Rightarrow> node option"

text \<open>
  The errors the program meets: those of the file system, of its environment (working
  directory, home directory, git), of the manifest, and those of reading an entry of a zip
  archive (\<open>zip.ErrFormat\<close>, \<open>zip.ErrAlgorithm\<close>, \<open>zip.ErrChecksum\<close>,
  \<open>io.ErrUnexpectedEOF\<close>).
\<close>

datatype error =
    ENOENT | ENOTDIR | EISDIR | EEXIST
  | GetwdFailed | HomeDirUnknown | GitFailed
  | ManifestNotFound | YamlError
  | ErrFormat | ErrAlgorithm | ErrChecksum | ErrUnexpectedEOF

definition os_Stat :: "fs \<Rightarrow> string \<Rightarrow> node option" where
  "os_Stat fs path =
     (if path = [] then None
      else if path = ''/'' \<or> path = ''.'' then Some (Dir 493)
      else fs path)"

definition os_Mkdir :: "fs \<Rightarrow> string \<Rightarrow> nat \<Rightarrow> error + fs" where
  "os_Mkdir fs path perm =
     (if path = [] then Inl ENOENT
      else case os_Stat fs path of
        Some _ \<Rightarrow> Inl EEXIST
      | None \<Rightarrow>
          (case os_Stat fs (filepath_Dir path) of
             None \<Rightarrow> Inl ENOENT
           | Some (File _ _) \<Rightarrow> Inl ENOTDIR
           | Some (Dir _) \<Rightarrow> Inr (fs(path \<mapsto> Dir perm))))"

text \<open>
  \<open>os.MkdirAll\<close> returns the file system it leaves behind together with its error, if
  any. The parent it recurses on: the path without its trailing separators,
  its last element and the separator before it.
\<close>

definition parentOf :: "string \<Rightarrow> string" where
  "parentOf path =
     rev (tl (dropWhile (\<lambda>c. c \<noteq> CHR ''/'') (dropWhile (\<lambda>c. c = CHR ''/'') (rev path))))"

lemma length_tl_less: "tl xs \<noteq> [] \<Longrightarrow> length (tl xs) < length xs"
  by (cases xs) simp_all

lemma length_parentOf: "parentOf path \<noteq> [] \<Longrightarrow> length (parentOf path) < length path"
proof -
  let ?r = "dropWhile (\<lambda>c. c = CHR ''/'') (rev path)"
  let ?q = "dropWhile (\<lambda>c. c \<noteq> CHR ''/'') ?r"
  assume "parentOf path \<noteq> []"
  then have "tl ?q \<noteq> []" by (simp add: parentOf_def)
  then have "length (tl ?q) < length ?q" by (rule length_tl_less)
  also have "length ?q \<le> length ?r" by (rule length_dropWhile_le)
  also have "length ?r \<le> length (rev path)" by (rule length_dropWhile_le)
  finally show ?thesis by (simp add: parentOf_def)
qed

function os_MkdirAll :: "fs \<Rightarrow> string \<Rightarrow> nat \<Rightarrow> fs \<times> error option" where
  "os_MkdirAll fs path perm =
     (case os_Stat fs path of
        Some (Dir _) \<Rightarrow> (fs, None)
      | Some (File _ _) \<Rightarrow> (fs, Some ENOTDIR)
      | None \<Rightarrow>
          (case (if parentOf path \<noteq> [] then os_MkdirAll fs (parentOf path) perm
                 else (fs, None)) of
             (fs1, Some e) \<Rightarrow> (fs1, Some e)
           | (fs1, None) \<Rightarrow>
               (case os_Mkdir fs1 path perm of
                  Inr fs2 \<Rightarrow> (fs2, None)
                | Inl e \<Rightarrow>
                    (case os_Stat fs1 path of
                       Some (Dir _) \<Rightarrow> (fs1, None)
                     | _ \<Rightarrow> (fs1, Some e)))))"
  by pat_completeness auto
termination
  by (relation "measure (\<lambda>(fs, path, perm). length path)") (simp_all add: length_parentOf)

declare os_MkdirAll.simps [simp del]

text \<open>\<open>os.Create\<close>: the file is created with mode 0666, or truncated when it exists.\<close>

definition os_Create :: "fs \<Rightarrow> string \<Rightarrow> error + fs" where
  "os_Create fs path =
     (case os_Stat fs path of
        Some (Dir _) \<Rightarrow> Inl EISDIR
      | Some (File _ mode) \<Rightarrow> Inr (fs(path \<mapsto> File [] mode))
      | None \<Rightarrow>
          (if path = [] then Inl ENOENT
           else case os_Stat fs (filepath_Dir path) of
             None \<Rightarrow> Inl ENOENT
           | Some (File _ _) \<Rightarrow> Inl ENOTDIR
           | Some (Dir _) \<Rightarrow> Inr (fs(path \<mapsto> File [] 438))))"

definition os_ReadFile :: "fs \<Rightarrow> string \<Rightarrow> error + char list" where
  "os_ReadFile fs path =
     (case os_Stat fs path of
        None \<Rightarrow> Inl ENOENT
      | Some (Dir _) \<Rightarrow> Inl EISDIR
      | Some (File content _) \<Rightarrow> Inr content)"

definition os_WriteFile :: "fs \<Rightarrow> string \<Rightarrow> char list \<Rightarrow> nat \<Rightarrow> error + fs" where
  "os_WriteFile fs path content perm =
     (case os_Stat fs path of
        Some (Dir _) \<Rightarrow> Inl EISDIR
      | Some (File _ mode) \<Rightarrow> Inr (fs(path \<mapsto> File content mode))
      | None \<Rightarrow>
          (if path = [] then Inl ENOENT
           else case os_Stat fs (filepath_Dir path) of
             None \<Rightarrow> Inl ENOENT
           | Some (File _ _) \<Rightarrow> Inl ENOTDIR
           | Some (Dir _) \<Rightarrow> Inr (fs(path \<mapsto> File content perm))))"

text \<open>
  What the program reads from its environment besides the file system: the working
  directory, the home directory, the host name, the clock, and the answers of the two
  \<open>git\<close> commands it runs in a directory (\<open>git rev-parse --git-dir\<close>: did it succeed;
  \<open>git status --ignored --porcelain\<close>: its output lines, or \<open>None\<close> when it failed).
\<close>

record machine =
  Getwd :: "string option"
  UserHomeDir :: "string option"
  Hostname :: string
  Now :: nat
  gitRevParse :: "string \<Rightarrow> bool"
  gitStatusIgnored :: "string \<Rightarrow> string list option"

definition filepath_Abs :: "machine \<Rightarrow> string \<Rightarrow> error + string" where
  "filepath_Abs m path =
     (if filepath_IsAbs path then Inr (filepath_Clean path)
      else case Getwd m of
        None \<Rightarrow> Inl GetwdFailed
      | Some wd \<Rightarrow> Inr (filepath_Join [wd, path]))"


section \<open>internal/scanner: Scan\<close>

text \<open>\<open>Size\<close> and \<open>TotalSize\<close> are \<open>int64\<close>; \<open>SecretCount\<close> is an \<open>int\<close> that counts
  elements of a slice held in memory, so it cannot overflow.\<close>

record IgnoredFile =
  Path :: string
  Size :: "64 word"
  IsSecret :: bool
  Category :: string

record ScanResult =
  RootPath :: string
  IgnoredFiles :: "IgnoredFile list"
  TotalSize :: "64 word"
  SecretCount :: int

record Scanner =
  ShowAll :: bool
  Categories :: "string list"
  ExcludeDeps :: bool

definition NewScanner :: Scanner where
  "NewScanner = \<lparr>ShowAll = False, Categories = [], ExcludeDeps = True\<rparr>"

definition isGitRepo :: "machine \<Rightarrow> string \<Rightarrow> bool" where
  "isGitRepo m path = gitRevParse m path"

fun ignoredLines :: "string list \<Rightarrow> string list" where
  "ignoredLines [] = []"
| "ignoredLines (line # rest) =
     (if strings_HasPrefix line ''!! ''
      then strings_TrimSuffix (strings_TrimPrefix line ''!! '') ''/'' # ignoredLines rest
      else ignoredLines rest)"

definition getGitIgnoredFiles :: "machine \<Rightarrow> string \<Rightarrow> error + string list" where
  "getGitIgnoredFiles m repoPath =
     (case gitStatusIgnored m repoPath of
        None \<Rightarrow> Inl GitFailed
      | Some output \<Rightarrow> Inr (ignoredLines output))"

text \<open>The body of the loop of \<open>Scan\<close> over the ignored paths, threading \<open>result\<close>.\<close>

fun scanPaths :: "Scanner \<Rightarrow> fs \<Rightarrow> string \<Rightarrow> string list \<Rightarrow> ScanResult \<Rightarrow> ScanResult" where
  "scanPaths s fs absPath [] result = result"
| "scanPaths s fs absPath (path # rest) result =
     (if ExcludeDeps s \<and> isInDepsDir path then scanPaths s fs absPath rest result
      else case os_Stat fs (filepath_Join [absPath, path]) of
        None \<Rightarrow> scanPaths s fs absPath rest result
      | Some (Dir _) \<Rightarrow> scanPaths s fs absPath rest result
      | Some (File content _) \<Rightarrow>
          (let file0 = \<lparr>Path = path, Size = of_nat (length content), IsSecret = False,
                          Category = categorizeFile path\<rparr>;
               file = file0\<lparr>IsSecret := isSecretFile path (Category file0)\<rparr>
           in if ShowAll s \<or> IsSecret file
              then scanPaths s fs absPath rest
                     (result\<lparr>IgnoredFiles := IgnoredFiles result @ [file],
                             TotalSize := TotalSize result + Size file,
                             SecretCount := (if IsSecret file then SecretCount result + 1
                                             else SecretCount result)\<rparr>)
              else scanPaths s fs absPath rest result))"

definition Scan :: "Scanner \<Rightarrow> machine \<Rightarrow> fs \<Rightarrow> string \<Rightarrow> error + ScanResult" where
  "Scan s m fs rootPath =
     (case filepath_Abs m rootPath of
        Inl e \<Rightarrow> Inl e
      | Inr absPath \<Rightarrow>
          (let result = \<lparr>RootPath = absPath, IgnoredFiles = [], TotalSize = 0, SecretCount = 0\<rparr>
           in if \<not> isGitRepo m absPath then Inr result
              else case getGitIgnoredFiles m absPath of
                Inl e \<Rightarrow> Inl e
              | Inr ignoredPaths \<Rightarrow> Inr (scanPaths s fs absPath ignoredPaths result)))"


section \<open>internal/cli: export\<close>

record RepoExport =
  Repo_Name :: string
  Repo_Path :: string
  Repo_Files :: "string list"

record Manifest =
  Version :: int
  CreatedAt :: nat
  Machine :: string
  Repos :: "RepoExport list"

text \<open>The loop of \<open>collectSingleRepo\<close> that keeps the paths of the secret files.\<close>

fun secretPaths :: "IgnoredFile list \<Rightarrow> string list \<Rightarrow> string list" where
  "secretPaths [] files = files"
| "secretPaths (f # rest) files =
     (if IsSecret f then secretPaths rest (files @ [Path f]) else secretPaths rest files)"

definition collectSingleRepo ::
    "Scanner \<Rightarrow> machine \<Rightarrow> fs \<Rightarrow> string \<Rightarrow> error + RepoExport list" where
  "collectSingleRepo s m fs path =
     (case Scan s m fs path of
        Inl e \<Rightarrow> Inl e
      | Inr result \<Rightarrow>
          (if length (IgnoredFiles result) = 0 then Inr []
           else
             let files = secretPaths (IgnoredFiles result) []
             in if length files = 0 then Inr []
                else Inr [\<lparr>Repo_Name = filepath_Base path, Repo_Path = path,
                           Repo_Files = files\<rparr>]))"

text \<open>
  \<open>collectReposRecursive\<close> calls \<open>collectSingleRepo\<close> on every repository root that
  \<open>filepath.Walk\<close> reaches and appends what it returns; a repository whose scan fails
  is left out. The walk itself is taken as its result: \<open>roots\<close>, the directories with a
  \<open>.git\<close> child, in the order the walk meets them.
\<close>

fun collectReposRecursive ::
    "Scanner \<Rightarrow> machine \<Rightarrow> fs \<Rightarrow> string list \<Rightarrow> RepoExport list \<Rightarrow> RepoExport list" where
  "collectReposRecursive s m fs [] repos = repos"
| "collectReposRecursive s m fs (repoPath # roots) repos =
     (case collectSingleRepo s m fs repoPath of
        Inr repoExports \<Rightarrow>
          (if length repoExports > 0
           then collectReposRecursive s m fs roots (repos @ repoExports)
           else collectReposRecursive s m fs roots repos)
      | Inl e \<Rightarrow> collectReposRecursive s m fs roots repos)"

text \<open>
  A zip archive is the list of its entries, in the order they were written: name, bytes
  and permission bits. Compression is not modelled. An entry of an archive that was
  damaged, or written by another tool, may fail to open (unsupported compression method,
  bad header), or fail while it is read, after some of its bytes were delivered (truncated
  data, checksum mismatch): \<open>Zip_Fault\<close> says which, with the error returned. The
  entries this program writes have no fault.
\<close>

datatype fault = OpenFails error | ReadFails nat error

record ZipFile =
  Zip_Name :: string
  Zip_Data :: "char list"
  Zip_Mode :: nat
  Zip_Fault :: "fault option"

text \<open>
  \<open>zipFile.Open()\<close> answers the reader of the entry or an error; \<open>io.ReadAll\<close> answers
  all the bytes of a reader or an error; \<open>io.Copy\<close> answers the bytes that reached the
  destination and the error that stopped it, if any.
\<close>

definition zip_Open :: "ZipFile \<Rightarrow> error + ZipFile" where
  "zip_Open zipFile =
     (case Zip_Fault zipFile of
        Some (OpenFails e) \<Rightarrow> Inl e
      | _ \<Rightarrow> Inr zipFile)"

definition io_ReadAll :: "ZipFile \<Rightarrow> error + char list" where
  "io_ReadAll rc =
     (case Zip_Fault rc of
        Some (ReadFails n e) \<Rightarrow> Inl e
      | _ \<Rightarrow> Inr (Zip_Data rc))"

definition io_Copy :: "ZipFile \<Rightarrow> char list \<times> error option" where
  "io_Copy rc =
     (case Zip_Fault rc of
        Some (ReadFails n e) \<Rightarrow> (take n (Zip_Data rc), Some e)
      | _ \<Rightarrow> (Zip_Data rc, None))"

text \<open>
  The YAML library (\<open>gopkg.in/yaml.v3\<close>) is a parameter of the model: how a manifest
  is written as text and read back.
\<close>

record yaml =
  yaml_Marshal :: "Manifest \<Rightarrow> error + char list"
  yaml_Unmarshal :: "char list \<Rightarrow> error + Manifest"

definition DefaultConfigDir :: "machine \<Rightarrow> error + string" where
  "DefaultConfigDir m =
     (case UserHomeDir m of
        None \<Rightarrow> Inl HomeDirUnknown
      | Some home \<Rightarrow> Inr (filepath_Join [home, ''.config'', ''igloc'']))"

definition PatternsFilePath :: "machine \<Rightarrow> error + string" where
  "PatternsFilePath m =
     (case DefaultConfigDir m of
        Inl e \<Rightarrow> Inl e
      | Inr dir \<Rightarrow> Inr (filepath_Join [dir, ''patterns.yaml'']))"

text \<open>
  \<open>addFileToZip\<close> returns the archive with its error, if any. Opening a directory
  succeeds and its header is written before the copy fails, so an entry without bytes
  stays behind.
\<close>

definition addFileToZip ::
    "fs \<Rightarrow> ZipFile list \<Rightarrow> string \<Rightarrow> string \<Rightarrow> ZipFile list \<times> error option" where
  "addFileToZip fs zipWriter sourcePath zipPath =
     (case os_Stat fs sourcePath of
        None \<Rightarrow> (zipWriter, Some ENOENT)
      | Some (Dir mode) \<Rightarrow>
          (zipWriter @ [\<lparr>Zip_Name = zipPath, Zip_Data = [], Zip_Mode = mode,
                          Zip_Fault = None\<rparr>], Some EISDIR)
      | Some (File content mode) \<Rightarrow>
          (zipWriter @ [\<lparr>Zip_Name = zipPath, Zip_Data = content, Zip_Mode = mode,
                          Zip_Fault = None\<rparr>], None))"

text \<open>
  The two nested loops of \<open>createExportZip\<close>. A warning is the pair of the file path and
  the error printed for it.
\<close>

fun exportFiles ::
    "fs \<Rightarrow> RepoExport \<Rightarrow> string list \<Rightarrow> ZipFile list \<times> (string \<times> error) list
       \<Rightarrow> ZipFile list \<times> (string \<times> error) list" where
  "exportFiles fs repo [] acc = acc"
| "exportFiles fs repo (filePath # rest) (zipWriter, warnings) =
     (let fullPath = filepath_Join [Repo_Path repo, filePath];
          zipPath = filepath_Join [''files'', Repo_Name repo, filePath]
      in case addFileToZip fs zipWriter fullPath zipPath of
           (zipWriter1, Some e) \<Rightarrow>
             exportFiles fs repo rest (zipWriter1, warnings @ [(filePath, e)])
         | (zipWriter1, None) \<Rightarrow> exportFiles fs repo rest (zipWriter1, warnings))"

fun exportRepos ::
    "fs \<Rightarrow> RepoExport list \<Rightarrow> ZipFile list \<times> (string \<times> error) list
       \<Rightarrow> ZipFile list \<times> (string \<times> error) list" where
  "exportRepos fs [] acc = acc"
| "exportRepos fs (repo # rest) acc =
     exportRepos fs rest (exportFiles fs repo (Repo_Files repo) acc)"

text \<open>
  \<open>createExportZip\<close> returns the archive and the warnings. The bytes of the archive
  file at \<open>outputPath\<close> are not part of the file system model: the output file is there,
  empty, while the entries are collected.
\<close>

definition createExportZip ::
    "yaml \<Rightarrow> machine \<Rightarrow> fs \<Rightarrow> string \<Rightarrow> RepoExport list
       \<Rightarrow> error + ZipFile list \<times> (string \<times> error) list" where
  "createExportZip y m fs outputPath repos =
     (case os_Create fs outputPath of
        Inl e \<Rightarrow> Inl e
      | Inr fs1 \<Rightarrow>
          (let manifest = \<lparr>Version = 1, CreatedAt = Now m, Machine = Hostname m,
                            Repos = repos\<rparr>
           in case yaml_Marshal y manifest of
                Inl e \<Rightarrow> Inl e
              | Inr manifestData \<Rightarrow>
                  (let zipWriter1 =
                         [\<lparr>Zip_Name = ''manifest.yaml'', Zip_Data = manifestData,
                            Zip_Mode = 0, Zip_Fault = None\<rparr>];
                       patternsPath = (case PatternsFilePath m of Inl e \<Rightarrow> [] | Inr p \<Rightarrow> p);
                       zipWriter2 =
                         (case os_ReadFile fs1 patternsPath of
                            Inl e \<Rightarrow> zipWriter1
                          | Inr patternsData \<Rightarrow>
                              zipWriter1 @ [\<lparr>Zip_Name = ''patterns.yaml'',
                                              Zip_Data = patternsData, Zip_Mode = 0,
                                              Zip_Fault = None\<rparr>])
                   in Inr (exportRepos fs1 repos (zipWriter2, [])))))"

record exportFlags =
  exportRecursive :: bool
  exportIncludeDeps :: bool

text \<open>
  \<open>runExport\<close> returns \<open>None\<close> when there is nothing to export, and the archive with
  its warnings otherwise. \<open>roots\<close> is what the recursive walk finds under the scan path.
\<close>

definition runExport ::
    "yaml \<Rightarrow> machine \<Rightarrow> exportFlags \<Rightarrow> string list \<Rightarrow> fs \<Rightarrow> string \<Rightarrow> string
       \<Rightarrow> error + (ZipFile list \<times> (string \<times> error) list) option" where
  "runExport y m flags roots fs outputPath scanPath =
     (case filepath_Abs m scanPath of
        Inl e \<Rightarrow> Inl e
      | Inr absPath \<Rightarrow>
          (let s = NewScanner\<lparr>ExcludeDeps := \<not> exportIncludeDeps flags\<rparr>
           in case (if exportRecursive flags
                    then Inr (collectReposRecursive s m fs roots [])
                    else collectSingleRepo s m fs absPath) of
                Inl e \<Rightarrow> Inl e
              | Inr repos \<Rightarrow>
                  (if length repos = 0 then Inr None
                   else case createExportZip y m fs outputPath repos of
                          Inl e \<Rightarrow> Inl e
                        | Inr archive \<Rightarrow> Inr (Some archive))))"


section \<open>internal/cli: import\<close>

record importFlags =
  importYes :: bool
  importDryRun :: bool
  importBaseDir :: string

definition fileExists :: "fs \<Rightarrow> string \<Rightarrow> bool" where
  "fileExists fs path = (case os_Stat fs path of None \<Rightarrow> False | Some _ \<Rightarrow> True)"

definition dirExists :: "fs \<Rightarrow> string \<Rightarrow> bool" where
  "dirExists fs path = (case os_Stat fs path of Some (Dir _) \<Rightarrow> True | _ \<Rightarrow> False)"

fun readManifest :: "yaml \<Rightarrow> ZipFile list \<Rightarrow> error + Manifest" where
  "readManifest y [] = Inl ManifestNotFound"
| "readManifest y (file # rest) =
     (if Zip_Name file = ''manifest.yaml'' then
        (case zip_Open file of
           Inl e \<Rightarrow> Inl e
         | Inr rc \<Rightarrow>
             (case io_ReadAll rc of
                Inl e \<Rightarrow> Inl e
              | Inr data \<Rightarrow> yaml_Unmarshal y data))
      else readManifest y rest)"

definition resolveDestPath :: "importFlags \<Rightarrow> fs \<Rightarrow> RepoExport \<Rightarrow> string \<Rightarrow> string" where
  "resolveDestPath flags fs repo filePath =
     (if importBaseDir flags \<noteq> []
      then filepath_Join [importBaseDir flags, Repo_Name repo, filePath]
      else if dirExists fs (Repo_Path repo)
      then filepath_Join [Repo_Path repo, filePath]
      else filepath_Join [''.'', Repo_Name repo, filePath])"

text \<open>
  \<open>extractFile\<close>: open the entry, create or truncate the destination, set the entry's
  permission bits (a failure of \<open>Chmod\<close> is ignored by the program), copy the bytes. When
  the entry does not open, nothing is created; when the copy stops with an error, the
  destination keeps the bytes that reached it.
\<close>

definition extractFile :: "fs \<Rightarrow> ZipFile \<Rightarrow> string \<Rightarrow> fs \<times> error option" where
  "extractFile fs zipFile destPath =
     (case zip_Open zipFile of
        Inl e \<Rightarrow> (fs, Some e)
      | Inr rc \<Rightarrow>
          (case os_Create fs destPath of
             Inl e \<Rightarrow> (fs, Some e)
           | Inr fs1 \<Rightarrow>
               (case io_Copy rc of
                  (written, err) \<Rightarrow>
                    (fs1(destPath \<mapsto> File written (Zip_Mode zipFile)), err))))"

text \<open>The map from repository names to their export record: a later repository of
  the same name replaces an earlier one.\<close>

fun buildRepoMap :: "RepoExport list \<Rightarrow> (string \<rightharpoonup> RepoExport) \<Rightarrow> (string \<rightharpoonup> RepoExport)" where
  "buildRepoMap [] repoMap = repoMap"
| "buildRepoMap (repo # rest) repoMap = buildRepoMap rest (repoMap(Repo_Name repo \<mapsto> repo))"

text \<open>What \<open>importFiles\<close> prints for an entry: the destination it wrote, or the file
  path with the error.\<close>

datatype outcome = Extracted string | Failed string error

text \<open>The loop of \<open>importFiles\<close> over the entries of the archive, threading the file
  system and the lines printed so far.\<close>

fun importEntries ::
    "importFlags \<Rightarrow> (string \<rightharpoonup> RepoExport) \<Rightarrow> ZipFile list \<Rightarrow> fs \<times> outcome list
       \<Rightarrow> fs \<times> outcome list" where
  "importEntries flags repoMap [] acc = acc"
| "importEntries flags repoMap (file # rest) (fs, printed) =
     (if \<not> strings_HasPrefix (Zip_Name file) ''files/''
      then importEntries flags repoMap rest (fs, printed)
      else
        let relPath = strings_TrimPrefix (Zip_Name file) ''files/'';
            parts = strings_SplitN2 relPath
        in if length parts < 2 then importEntries flags repoMap rest (fs, printed)
           else
             let repoName = parts ! 0;
                 filePath = parts ! 1
             in case repoMap repoName of
                  None \<Rightarrow> importEntries flags repoMap rest (fs, printed)
                | Some repo \<Rightarrow>
                    (let destPath = resolveDestPath flags fs repo filePath
                     in case os_MkdirAll fs (filepath_Dir destPath) 493 of
                          (fs1, Some e) \<Rightarrow>
                            importEntries flags repoMap rest (fs1, printed @ [Failed filePath e])
                        | (fs1, None) \<Rightarrow>
                            (case extractFile fs1 file destPath of
                               (fs2, Some e) \<Rightarrow>
                                 importEntries flags repoMap rest
                                   (fs2, printed @ [Failed filePath e])
                             | (fs2, None) \<Rightarrow>
                                 importEntries flags repoMap rest
                                   (fs2, printed @ [Extracted destPath]))))"

text \<open>\<open>importFiles\<close> always returns \<open>nil\<close>; its result here is the file system it
  leaves and the lines it printed.\<close>

definition importFiles ::
    "importFlags \<Rightarrow> fs \<Rightarrow> ZipFile list \<Rightarrow> Manifest \<Rightarrow> fs \<times> outcome list" where
  "importFiles flags fs zipReader manifest =
     importEntries flags (buildRepoMap (Repos manifest) Map.empty) zipReader (fs, [])"

fun importPatterns :: "machine \<Rightarrow> fs \<Rightarrow> ZipFile list \<Rightarrow> fs \<times> error option" where
  "importPatterns m fs [] = (fs, None)"
| "importPatterns m fs (file # rest) =
     (if Zip_Name file = ''patterns.yaml'' then
        (case zip_Open file of
           Inl e \<Rightarrow> (fs, Some e)
         | Inr rc \<Rightarrow>
             (case io_ReadAll rc of
                Inl e \<Rightarrow> (fs, Some e)
              | Inr data \<Rightarrow>
                  (case DefaultConfigDir m of
                     Inl e \<Rightarrow> (fs, Some e)
                   | Inr configDir \<Rightarrow>
                       (case os_MkdirAll fs configDir 493 of
                          (fs1, Some e) \<Rightarrow> (fs1, Some e)
                        | (fs1, None) \<Rightarrow>
                            (case PatternsFilePath m of
                               Inl e \<Rightarrow> (fs1, Some e)
                             | Inr patternsPath \<Rightarrow>
                                 (case os_WriteFile fs1 patternsPath data 420 of
                                    Inl e \<Rightarrow> (fs1, Some e)
                                  | Inr fs2 \<Rightarrow> (fs2, None)))))))
      else importPatterns m fs rest)"

text \<open>The line \<open>ReadString('\n')\<close> takes from standard input.\<close>

definition readLine :: "string \<Rightarrow> string" where
  "readLine input =
     (case dropWhile (\<lambda>c. c \<noteq> CHR 0x0A) input of
        [] \<Rightarrow> input
      | _ # _ \<Rightarrow> takeWhile (\<lambda>c. c \<noteq> CHR 0x0A) input @ [CHR 0x0A])"

text \<open>
  What \<open>runImport\<close> prints, line by line: the header (creation time, source machine when
  there is one, number of repositories), the preview (a line per repository, a line per
  listed file with its overwrite mark, the total), the notices of a dry run, of the prompt
  and of a cancelled import, the per-file lines of \<open>importFiles\<close>, the warning about the
  patterns file, and the closing line. Blank lines are left out.
\<close>

datatype message =
    ArchiveCreated nat | SourceMachine string | RepositoryCount nat
  | RepoHeader string | ListedFile string bool | Total int
  | DryRunNotice | Prompt | Cancelled
  | FileLine outcome | PatternsWarning error | ImportComplete

text \<open>The two nested loops of the preview, threading the lines printed so far and
  \<open>totalFiles\<close>.\<close>

fun previewFiles ::
    "importFlags \<Rightarrow> fs \<Rightarrow> RepoExport \<Rightarrow> string list \<Rightarrow> message list \<times> int
       \<Rightarrow> message list \<times> int" where
  "previewFiles flags fs repo [] acc = acc"
| "previewFiles flags fs repo (file # rest) (printed, totalFiles) =
     (let destPath = resolveDestPath flags fs repo file;
          exists = fileExists fs destPath
      in previewFiles flags fs repo rest (printed @ [ListedFile file exists], totalFiles + 1))"

fun previewRepos ::
    "importFlags \<Rightarrow> fs \<Rightarrow> RepoExport list \<Rightarrow> message list \<times> int
       \<Rightarrow> message list \<times> int" where
  "previewRepos flags fs [] acc = acc"
| "previewRepos flags fs (repo # rest) (printed, totalFiles) =
     previewRepos flags fs rest
       (previewFiles flags fs repo (Repo_Files repo)
          (printed @ [RepoHeader (Repo_Name repo)], totalFiles))"

text \<open>
  \<open>runImport\<close> on an archive that was opened: the file system it leaves and the lines it
  printed, or the fatal error. Standard input is read only when the prompt is shown.
\<close>

definition runImport ::
    "yaml \<Rightarrow> machine \<Rightarrow> importFlags \<Rightarrow> string \<Rightarrow> fs \<Rightarrow> ZipFile list
       \<Rightarrow> error + fs \<times> message list" where
  "runImport y m flags stdin fs reader =
     (case readManifest y reader of
        Inl e \<Rightarrow> Inl e
      | Inr manifest \<Rightarrow>
          (let header =
                 [ArchiveCreated (CreatedAt manifest)]
                 @ (if Machine manifest \<noteq> [] then [SourceMachine (Machine manifest)] else [])
                 @ [RepositoryCount (length (Repos manifest))]
           in case previewRepos flags fs (Repos manifest) (header, 0) of
                (listing, totalFiles) \<Rightarrow>
                  (let printed = listing @ [Total totalFiles]
                   in if importDryRun flags then Inr (fs, printed @ [DryRunNotice])
                      else
                        let asked = (if importYes flags then printed else printed @ [Prompt]);
                            response = strings_TrimSpace (strings_ToLower (readLine stdin))
                        in if \<not> importYes flags \<and> response \<noteq> ''y'' \<and> response \<noteq> ''yes''
                           then Inr (fs, asked @ [Cancelled])
                           else
                             (case importFiles flags fs reader manifest of
                                (fs1, results) \<Rightarrow>
                                  (case importPatterns m fs1 reader of
                                     (fs2, warning) \<Rightarrow>
                                       Inr (fs2,
                                            asked @ map FileLine results
                                            @ (case warning of
                                                 None \<Rightarrow> []
                                               | Some e \<Rightarrow> [PatternsWarning e])
                                            @ [ImportComplete]))))))"


section \<open>Auxiliary notions for the proofs\<close>

text \<open>
  What one pass of the loop of \<open>Scan\<close> decides for a path: the record it appends, or
  nothing; and the update of the result when a record is appended.
\<close>

definition scanOne :: "Scanner \<Rightarrow> fs \<Rightarrow> string \<Rightarrow> string \<Rightarrow> IgnoredFile option" where
  "scanOne s fs absPath path =
     (if ExcludeDeps s \<and> isInDepsDir path then None
      else case os_Stat fs (filepath_Join [absPath, path]) of
        Some (File content mode) \<Rightarrow>
          (if ShowAll s \<or> isSecretFile path (categorizeFile path)
           then Some \<lparr>Path = path, Size = of_nat (length content),
                      IsSecret = isSecretFile path (categorizeFile path),
                      Category = categorizeFile path\<rparr>
           else None)
      | _ \<Rightarrow> None)"

definition addFile :: "ScanResult \<Rightarrow> IgnoredFile \<Rightarrow> ScanResult" where
  "addFile result file =
     result\<lparr>IgnoredFiles := IgnoredFiles result @ [file],
            TotalSize := TotalSize result + Size file,
            SecretCount := (if IsSecret file then SecretCount result + 1
                            else SecretCount result)\<rparr>"

definition emptyResult :: "string \<Rightarrow> ScanResult" where
  "emptyResult absPath = \<lparr>RootPath = absPath, IgnoredFiles = [], TotalSize = 0, SecretCount = 0\<rparr>"

text \<open>A machine and a repository used to instantiate the theorems: one secret file and
  one build log, both ignored by git.\<close>

definition example_machine :: machine where
  "example_machine =
     \<lparr>Getwd = Some ''/home/u'', UserHomeDir = Some ''/home/u'', Hostname = ''laptop'',
      Now = 0, gitRevParse = (\<lambda>path. True),
      gitStatusIgnored = (\<lambda>path. Some [''!! .env'', ''!! build/output.log''])\<rparr>"

definition example_fs :: fs where
  "example_fs =
     [''/home/u'' \<mapsto> Dir 493,
      ''/home/u/my-app'' \<mapsto> Dir 493,
      ''/home/u/my-app/.env'' \<mapsto> File ''A=1'' 384,
      ''/home/u/my-app/build'' \<mapsto> Dir 493,
      ''/home/u/my-app/build/output.log'' \<mapsto> File ''log line'' 420]"

definition example_file :: IgnoredFile where
  "example_file = \<lparr>Path = ''.env'', Size = 3, IsSecret = True, Category = ''env''\<rparr>"

definition example_result :: ScanResult where
  "example_result =
     \<lparr>RootPath = ''/home/u/my-app'', IgnoredFiles = [example_file],
      TotalSize = 3, SecretCount = 1\<rparr>"

definition example_scanned :: ScanResult where
  "example_scanned =
     \<lparr>RootPath = ''/home/u/my-app'',
      IgnoredFiles = [example_file,
        \<lparr>Path = ''build/output.log'', Size = 8, IsSecret = False, Category = ''build''\<rparr>],
      TotalSize = 11, SecretCount = 1\<rparr>"


text \<open>
  The loop body of \<open>importFiles\<close> in three steps: the repository name and the file path
  an entry name stands for (\<open>files/<repoName>/<filePath>\<close>), the extraction of an entry
  of a known repository, and what the loop does with one entry.
\<close>

definition entryTarget :: "string \<Rightarrow> (string \<times> string) option" where
  "entryTarget name =
     (if \<not> strings_HasPrefix name ''files/'' then None
      else
        let parts = strings_SplitN2 (strings_TrimPrefix name ''files/'')
        in if length parts < 2 then None else Some (parts ! 0, parts ! 1))"

definition extractTo ::
    "importFlags \<Rightarrow> fs \<Rightarrow> ZipFile \<Rightarrow> RepoExport \<Rightarrow> string \<Rightarrow> fs \<times> outcome list" where
  "extractTo flags fs file repo filePath =
     (let destPath = resolveDestPath flags fs repo filePath
      in case os_MkdirAll fs (filepath_Dir destPath) 493 of
           (fs1, Some e) \<Rightarrow> (fs1, [Failed filePath e])
         | (fs1, None) \<Rightarrow>
             (case extractFile fs1 file destPath of
                (fs2, Some e) \<Rightarrow> (fs2, [Failed filePath e])
              | (fs2, None) \<Rightarrow> (fs2, [Extracted destPath])))"

definition importEntry ::
    "importFlags \<Rightarrow> (string \<rightharpoonup> RepoExport) \<Rightarrow> fs \<Rightarrow> ZipFile \<Rightarrow> fs \<times> outcome list" where
  "importEntry flags repoMap fs file =
     (case entryTarget (Zip_Name file) of
        None \<Rightarrow> (fs, [])
      | Some (repoName, filePath) \<Rightarrow>
          (case repoMap repoName of
             None \<Rightarrow> (fs, [])
           | Some repo \<Rightarrow> extractTo flags fs file repo filePath))"

text \<open>
  An entry is processed when its name is \<open>files/<repoName>/<filePath>\<close> for a repository
  of the manifest; a printed line belongs to an entry when it reports that entry's file
  path or a destination resolved for it; two repository maps have the same targets when
  they agree on names and paths (the file lists may differ).
\<close>

definition processed :: "(string \<rightharpoonup> RepoExport) \<Rightarrow> ZipFile \<Rightarrow> bool" where
  "processed repoMap file =
     (case entryTarget (Zip_Name file) of
        None \<Rightarrow> False
      | Some (repoName, filePath) \<Rightarrow> (case repoMap repoName of None \<Rightarrow> False | Some _ \<Rightarrow> True))"

fun isFailed :: "outcome \<Rightarrow> bool" where
  "isFailed (Failed filePath e) = True"
| "isFailed (Extracted destPath) = False"

definition failures :: "outcome list \<Rightarrow> nat" where
  "failures printed = length (filter isFailed printed)"

definition successes :: "outcome list \<Rightarrow> nat" where
  "successes printed = length (filter (\<lambda>line. \<not> isFailed line) printed)"



text \<open>A restore used to instantiate the theorems: one repository, whose manifest lists
  a file the archive does not hold.\<close>

definition restore_flags :: importFlags where
  "restore_flags = \<lparr>importYes = True, importDryRun = False, importBaseDir = ''/tmp/restore''\<rparr>"

definition restore_repo :: RepoExport where
  "restore_repo = \<lparr>Repo_Name = ''my-app'', Repo_Path = ''/home/u/my-app'',
                    Repo_Files = [''.env'', ''secrets.key'']\<rparr>"

definition restore_manifest :: Manifest where
  "restore_manifest = \<lparr>Version = 1, CreatedAt = 0, Machine = ''laptop'', Repos = [restore_repo]\<rparr>"

definition restore_archive :: "ZipFile list" where
  "restore_archive =
     [\<lparr>Zip_Name = ''manifest.yaml'', Zip_Data = ''version: 1'', Zip_Mode = 0,
        Zip_Fault = None\<rparr>,
      \<lparr>Zip_Name = ''files/my-app/.env'', Zip_Data = ''A=1'', Zip_Mode = 384,
        Zip_Fault = None\<rparr>]"

definition restore_yaml :: yaml where
  "restore_yaml =
     \<lparr>yaml_Marshal = (\<lambda>manifest. Inr ''version: 1''),
      yaml_Unmarshal = (\<lambda>data. Inr restore_manifest)\<rparr>"

definition traversal_entry :: ZipFile where
  "traversal_entry = \<lparr>Zip_Name = ''files/my-app/../../evil'', Zip_Data = ''pwned'',
                        Zip_Mode = 420, Zip_Fault = None\<rparr>"

definition unlisted_entry :: ZipFile where
  "unlisted_entry = \<lparr>Zip_Name = ''files/my-app/notes.txt'', Zip_Data = ''hello'',
                       Zip_Mode = 420, Zip_Fault = None\<rparr>"

definition foreign_entry :: ZipFile where
  "foreign_entry = \<lparr>Zip_Name = ''files/other/.env'', Zip_Data = ''B=2'', Zip_Mode = 384,
                      Zip_Fault = None\<rparr>"

definition short_entry :: ZipFile where
  "short_entry = \<lparr>Zip_Name = ''files/my-app'', Zip_Data = ''C=3'', Zip_Mode = 384,
                    Zip_Fault = None\<rparr>"

text \<open>Entries that are not extracted although they belong to the repository of the
  manifest: \<open>files/my-app/a/b\<close> after \<open>files/my-app/a\<close> (a regular file stands where
  a directory is needed), an entry that does not open, and an entry whose data stops
  after three bytes.\<close>

definition blocking_entry :: ZipFile where
  "blocking_entry = \<lparr>Zip_Name = ''files/my-app/a'', Zip_Data = ''x'', Zip_Mode = 420,
                       Zip_Fault = None\<rparr>"

definition nested_entry :: ZipFile where
  "nested_entry = \<lparr>Zip_Name = ''files/my-app/a/b'', Zip_Data = ''y'', Zip_Mode = 420,
                     Zip_Fault = None\<rparr>"

definition unreadable_entry :: ZipFile where
  "unreadable_entry = \<lparr>Zip_Name = ''files/my-app/token.txt'', Zip_Data = ''t'',
                         Zip_Mode = 384, Zip_Fault = Some (OpenFails ErrAlgorithm)\<rparr>"

definition truncated_entry :: ZipFile where
  "truncated_entry = \<lparr>Zip_Name = ''files/my-app/id_rsa'', Zip_Data = ''key bytes'',
                        Zip_Mode = 384, Zip_Fault = Some (ReadFails 3 ErrUnexpectedEOF)\<rparr>"

text \<open>The exporting machine, its repository \<open>my-app\<close> and a YAML codec used to
  instantiate the round-trip theorem.\<close>

definition round_trip_machine :: machine where
  "round_trip_machine =
     \<lparr>Getwd = Some ''/home/u/my-app'', UserHomeDir = Some ''/home/u'', Hostname = ''laptop'',
      Now = 0, gitRevParse = (\<lambda>path. True),
      gitStatusIgnored = (\<lambda>path. Some [''!! .env'', ''!! config/.env.local''])\<rparr>"

definition round_trip_fs :: fs where
  "round_trip_fs =
     [''/home/u'' \<mapsto> Dir 493,
      ''/home/u/my-app'' \<mapsto> Dir 493,
      ''/home/u/my-app/.env'' \<mapsto> File ''A=1'' 384,
      ''/home/u/my-app/config'' \<mapsto> Dir 493,
      ''/home/u/my-app/config/.env.local'' \<mapsto> File ''B=22'' 420]"

definition round_trip_manifest :: Manifest where
  "round_trip_manifest =
     \<lparr>Version = 1, CreatedAt = 0, Machine = ''laptop'',
      Repos = [\<lparr>Repo_Name = ''my-app'', Repo_Path = ''/home/u/my-app'',
                Repo_Files = [''.env'', ''config/.env.local'']\<rparr>]\<rparr>"

definition round_trip_yaml :: yaml where
  "round_trip_yaml =
     \<lparr>yaml_Marshal = (\<lambda>manifest. Inr ''version: 1''),
      yaml_Unmarshal = (\<lambda>data. Inr round_trip_manifest)\<rparr>"

text \<open>An importing machine on which the base directory exists and is empty, and one on
  which a directory stands where \<open>.env\<close> is to be restored.\<close>

definition prepared_fs :: fs where
  "prepared_fs = [''/tmp'' \<mapsto> Dir 511, ''/tmp/restore'' \<mapsto> Dir 448]"


text \<open>
  What the recursive export should collect for one repository root: nothing when the
  scan fails or flags no file, and otherwise the one \<open>RepoExport\<close> whose files are the
  paths of the scanned ignored files (those a show-all scan lists) flagged secret.
\<close>

definition exportOf :: "Scanner \<Rightarrow> machine \<Rightarrow> fs \<Rightarrow> string \<Rightarrow> RepoExport list" where
  "exportOf s m fs root =
     (case Scan (s\<lparr>ShowAll := True\<rparr>) m fs root of
        Inl e \<Rightarrow> []
      | Inr scanned \<Rightarrow>
          (if map Path (filter IsSecret (IgnoredFiles scanned)) = [] then []
           else [\<lparr>Repo_Name = filepath_Base root, Repo_Path = root,
                  Repo_Files = map Path (filter IsSecret (IgnoredFiles scanned))\<rparr>]))"

text \<open>
  The lines of a run of \<open>runImport\<close> by kind: the per-file lines of the extraction and
  the lines of the preview. A restore goes ahead when \<open>--yes\<close> was given or the line read
  from standard input is \<open>y\<close> or \<open>yes\<close>, whatever its case and the white space around it.
\<close>

primrec fileLines :: "message list \<Rightarrow> outcome list" where
  "fileLines [] = []"
| "fileLines (msg # rest) =
     (case msg of FileLine result \<Rightarrow> result # fileLines rest | _ \<Rightarrow> fileLines rest)"

primrec listedFiles :: "message list \<Rightarrow> (string \<times> bool) list" where
  "listedFiles [] = []"
| "listedFiles (msg # rest) =
     (case msg of
        ListedFile path overwrite \<Rightarrow> (path, overwrite) # listedFiles rest
      | _ \<Rightarrow> listedFiles rest)"

definition confirmed :: "importFlags \<Rightarrow> string \<Rightarrow> bool" where
  "confirmed flags stdin \<longleftrightarrow>
     importYes flags
     \<or> strings_TrimSpace (strings_ToLower (readLine stdin)) = ''y''
     \<or> strings_TrimSpace (strings_ToLower (readLine stdin)) = ''yes''"

text \<open>What is printed before the extraction starts, and after it.\<close>

definition listing :: "importFlags \<Rightarrow> fs \<Rightarrow> RepoExport list \<Rightarrow> message list" where
  "listing flags fs repos =
     concat (map (\<lambda>repo. RepoHeader (Repo_Name repo)
                    # map (\<lambda>path. ListedFile path
                                    (fileExists fs (resolveDestPath flags fs repo path)))
                        (Repo_Files repo)) repos)"

definition announced :: "importFlags \<Rightarrow> fs \<Rightarrow> Manifest \<Rightarrow> message list" where
  "announced flags fs manifest =
     [ArchiveCreated (CreatedAt manifest)]
     @ (if Machine manifest \<noteq> [] then [SourceMachine (Machine manifest)] else [])
     @ [RepositoryCount (length (Repos manifest))]
     @ listing flags fs (Repos manifest)
     @ [Total (int (length (concat (map Repo_Files (Repos manifest)))))]
     @ (if importYes flags then [] else [Prompt])"

definition closing :: "error option \<Rightarrow> message list" where
  "closing warning =
     (case warning of None \<Rightarrow> [] | Some e \<Rightarrow> [PatternsWarning e]) @ [ImportComplete]"

section \<open>Properties of the classifier\<close>

lemma containsAny_iff:
  "containsAny name patterns \<longleftrightarrow> (\<exists>pattern \<in> set patterns. strings_Contains name pattern)"
  by (induction patterns) auto

lemma inBuildDirs_iff:
  "inBuildDirs path dirs \<longleftrightarrow>
     (\<exists>dir \<in> set dirs. strings_Contains path (dir @ ''/'')
        \<or> strings_HasPrefix path (dir @ ''/'') \<or> path = dir)"
  by (induction dirs) auto

lemma inIdeDirs_iff:
  "inIdeDirs path dirs \<longleftrightarrow>
     (\<exists>dir \<in> set dirs. strings_HasPrefix path (dir @ ''/'') \<or> path = dir)"
  by (induction dirs) auto

lemma categorizeFile_chain:
  "categorizeFile p =
     (if envRule p then ''env'' else if keyRule p then ''key''
      else if configRule p then ''config'' else if buildRule p then ''build''
      else if cacheRule p then ''cache'' else if ideRule p then ''ide'' else ''other'')"
  unfolding categorizeFile_def envRule_def keyRule_def configRule_def buildRule_def
    cacheRule_def ideRule_def Let_def containsAny_iff inBuildDirs_iff inIdeDirs_iff
  by auto

text \<open>
  C6 (build category is segment-based). The specification asks for category \<open>build\<close>
  exactly when a build directory name is a whole segment of the path. The code tests
  \<open>strings.Contains(path, dir+"/")\<close>, a substring test with no boundary on the left (its
  sibling \<open>isInDepsDir\<close> anchors the name with a leading separator). At \<open>my_dist/x\<close> none
  of the env, key and config rules fires, no build directory name is a segment of the
  path, and \<open>categorizeFile\<close> still answers \<open>build\<close>.
\<close>

theorem categorizeFile_build_substring:
  "\<not> envRule ''my_dist/x'' \<and> \<not> keyRule ''my_dist/x'' \<and> \<not> configRule ''my_dist/x''
   \<and> \<not> hasBuildSegment ''my_dist/x''
   \<and> categorizeFile ''my_dist/x'' = ''build''"
  by code_simp

text \<open>
  C7 (category precedence). \<open>categorizeFile\<close> tries its rules in the order env, key,
  config, build, cache, ide and answers with the first that fires, \<open>other\<close> when none
  does. \<open>.env.production\<close> is \<open>env\<close>; \<open>config/app.secret.yaml\<close> is \<open>key\<close> and is flagged
  secret.
\<close>

theorem categorizeFile_precedence:
  "(envRule p \<longrightarrow> categorizeFile p = ''env'')
   \<and> (\<not> envRule p \<and> keyRule p \<longrightarrow> categorizeFile p = ''key'')
   \<and> (\<not> envRule p \<and> \<not> keyRule p \<and> configRule p \<longrightarrow> categorizeFile p = ''config'')
   \<and> (\<not> envRule p \<and> \<not> keyRule p \<and> \<not> configRule p \<and> buildRule p
        \<longrightarrow> categorizeFile p = ''build'')
   \<and> (\<not> envRule p \<and> \<not> keyRule p \<and> \<not> configRule p \<and> \<not> buildRule p \<and> cacheRule p
        \<longrightarrow> categorizeFile p = ''cache'')
   \<and> (\<not> envRule p \<and> \<not> keyRule p \<and> \<not> configRule p \<and> \<not> buildRule p \<and> \<not> cacheRule p
        \<and> ideRule p \<longrightarrow> categorizeFile p = ''ide'')
   \<and> (\<not> envRule p \<and> \<not> keyRule p \<and> \<not> configRule p \<and> \<not> buildRule p \<and> \<not> cacheRule p
        \<and> \<not> ideRule p \<longrightarrow> categorizeFile p = ''other'')
   \<and> categorizeFile ''.env.production'' = ''env''
   \<and> categorizeFile ''config/app.secret.yaml'' = ''key''
   \<and> isSecretFile ''config/app.secret.yaml'' (categorizeFile ''config/app.secret.yaml'')"
proof -
  have "categorizeFile ''.env.production'' = ''env''" by code_simp
  moreover have "categorizeFile ''config/app.secret.yaml'' = ''key''" by code_simp
  moreover have "isSecretFile ''config/app.secret.yaml'' ''key''" by code_simp
  ultimately show ?thesis by (simp add: categorizeFile_chain [of p])
qed

theorem categorizeFile_precedence_witness:
  "envRule ''.env.production'' \<and> categorizeFile ''.env.production'' = ''env''
   \<and> \<not> envRule ''settings.secret.yaml'' \<and> keyRule ''settings.secret.yaml''
   \<and> configRule ''settings.secret.yaml'' \<and> categorizeFile ''settings.secret.yaml'' = ''key''
   \<and> \<not> keyRule ''dist/app.config.json''
   \<and> configRule ''dist/app.config.json'' \<and> buildRule ''dist/app.config.json''
   \<and> categorizeFile ''dist/app.config.json'' = ''config''
   \<and> \<not> configRule ''build/cache/a.o'' \<and> buildRule ''build/cache/a.o''
   \<and> cacheRule ''build/cache/a.o'' \<and> categorizeFile ''build/cache/a.o'' = ''build''
   \<and> \<not> buildRule ''.idea/cache.xml''
   \<and> cacheRule ''.idea/cache.xml'' \<and> ideRule ''.idea/cache.xml''
   \<and> categorizeFile ''.idea/cache.xml'' = ''cache''
   \<and> \<not> cacheRule ''.vscode/launch.json'' \<and> ideRule ''.vscode/launch.json''
   \<and> categorizeFile ''.vscode/launch.json'' = ''ide''
   \<and> \<not> ideRule ''notes.txt'' \<and> categorizeFile ''notes.txt'' = ''other''"
proof -
  have r1: "envRule ''.env.production''" by code_simp
  have r2: "\<not> envRule ''settings.secret.yaml'' \<and> keyRule ''settings.secret.yaml''"
    and r2': "configRule ''settings.secret.yaml''" by code_simp+
  have r3: "\<not> envRule ''dist/app.config.json'' \<and> \<not> keyRule ''dist/app.config.json''
            \<and> configRule ''dist/app.config.json''"
    and r3': "buildRule ''dist/app.config.json''" by code_simp+
  have r4: "\<not> envRule ''build/cache/a.o'' \<and> \<not> keyRule ''build/cache/a.o''
            \<and> \<not> configRule ''build/cache/a.o'' \<and> buildRule ''build/cache/a.o''"
    and r4': "cacheRule ''build/cache/a.o''" by code_simp+
  have r5: "\<not> envRule ''.idea/cache.xml'' \<and> \<not> keyRule ''.idea/cache.xml''
            \<and> \<not> configRule ''.idea/cache.xml'' \<and> \<not> buildRule ''.idea/cache.xml''
            \<and> cacheRule ''.idea/cache.xml''"
    and r5': "ideRule ''.idea/cache.xml''" by code_simp+
  have r6: "\<not> envRule ''.vscode/launch.json'' \<and> \<not> keyRule ''.vscode/launch.json''
            \<and> \<not> configRule ''.vscode/launch.json'' \<and> \<not> buildRule ''.vscode/launch.json''
            \<and> \<not> cacheRule ''.vscode/launch.json'' \<and> ideRule ''.vscode/launch.json''"
    by code_simp
  have r7: "\<not> envRule ''notes.txt'' \<and> \<not> keyRule ''notes.txt'' \<and> \<not> configRule ''notes.txt''
            \<and> \<not> buildRule ''notes.txt'' \<and> \<not> cacheRule ''notes.txt'' \<and> \<not> ideRule ''notes.txt''"
    by code_simp
  have c1: "categorizeFile ''.env.production'' = ''env''"
    using categorizeFile_precedence [of "''.env.production''"] r1 by (elim conjE) (rule mp)
  have c2: "categorizeFile ''settings.secret.yaml'' = ''key''"
    using categorizeFile_precedence [of "''settings.secret.yaml''"] r2 by (elim conjE) blast
  have c3: "categorizeFile ''dist/app.config.json'' = ''config''"
    using categorizeFile_precedence [of "''dist/app.config.json''"] r3 by (elim conjE) blast
  have c4: "categorizeFile ''build/cache/a.o'' = ''build''"
    using categorizeFile_precedence [of "''build/cache/a.o''"] r4 by (elim conjE) blast
  have c5: "categorizeFile ''.idea/cache.xml'' = ''cache''"
    using categorizeFile_precedence [of "''.idea/cache.xml''"] r5 by (elim conjE) blast
  have c6: "categorizeFile ''.vscode/launch.json'' = ''ide''"
    using categorizeFile_precedence [of "''.vscode/launch.json''"] r6 by (elim conjE) blast
  have c7: "categorizeFile ''notes.txt'' = ''other''"
    using categorizeFile_precedence [of "''notes.txt''"] r7 by (elim conjE) blast
  show ?thesis
    using r1 r2 r2' r3 r3' r4 r4' r5 r5' r6 r7 c1 c2 c3 c4 c5 c6 c7 by (intro conjI) (elim conjE, assumption)+
qed


section \<open>Properties of Scan\<close>

lemma scanPaths_Cons:
  "scanPaths s fs absPath (path # rest) result =
     scanPaths s fs absPath rest
       (case scanOne s fs absPath path of None \<Rightarrow> result | Some file \<Rightarrow> addFile result file)"
  by (simp add: scanOne_def addFile_def Let_def del: filepath_Join.simps
        split: option.split node.split)

lemma scanPaths_files:
  "IgnoredFiles (scanPaths s fs absPath paths result)
     = IgnoredFiles result @ List.map_filter (scanOne s fs absPath) paths"
proof (induction paths arbitrary: result)
  case Nil
  then show ?case by (simp add: List.map_filter_simps)
next
  case (Cons path rest)
  show ?case
    unfolding scanPaths_Cons Cons.IH
    by (cases "scanOne s fs absPath path") (simp_all add: List.map_filter_simps addFile_def)
qed

lemma scanPaths_sums:
  assumes "TotalSize result = sum_list (map Size (IgnoredFiles result))"
    and "SecretCount result = int (length (filter IsSecret (IgnoredFiles result)))"
  shows "TotalSize (scanPaths s fs absPath paths result)
           = sum_list (map Size (IgnoredFiles (scanPaths s fs absPath paths result)))
         \<and> SecretCount (scanPaths s fs absPath paths result)
           = int (length (filter IsSecret (IgnoredFiles (scanPaths s fs absPath paths result))))"
  using assms
proof (induction paths arbitrary: result)
  case Nil
  then show ?case by simp
next
  case (Cons path rest)
  show ?case
  proof (cases "scanOne s fs absPath path")
    case None
    then show ?thesis unfolding scanPaths_Cons using Cons by simp
  next
    case (Some f)
    have "TotalSize (addFile result f)
            = sum_list (map Size (IgnoredFiles (addFile result f)))"
      using Cons.prems(1) by (simp add: addFile_def)
    moreover have "SecretCount (addFile result f)
            = int (length (filter IsSecret (IgnoredFiles (addFile result f))))"
      using Cons.prems(2) by (simp add: addFile_def)
    ultimately show ?thesis
      unfolding scanPaths_Cons Some option.case by (rule Cons.IH)
  qed
qed

lemma scanOne_classified:
  "scanOne s fs absPath path = Some file \<Longrightarrow>
     Path file = path \<and> Category file = categorizeFile path
     \<and> IsSecret file = isSecretFile path (categorizeFile path)
     \<and> (ShowAll s \<or> IsSecret file)"
  by (auto simp: scanOne_def split: if_splits option.splits node.splits)

lemma secretPaths_eq:
  "secretPaths files acc = acc @ map Path (filter IsSecret files)"
  by (induction files arbitrary: acc) simp_all

lemma Scan_cases:
  assumes "Scan s m fs rootPath = Inr result"
  obtains absPath ignoredPaths where
    "filepath_Abs m rootPath = Inr absPath"
    "result = scanPaths s fs absPath ignoredPaths (emptyResult absPath)"
    "ignoredPaths = (if isGitRepo m absPath then case getGitIgnoredFiles m absPath of Inr ps \<Rightarrow> ps | Inl e \<Rightarrow> [] else [])"
proof (cases "filepath_Abs m rootPath")
  case (Inl e)
  then show ?thesis using assms by (simp add: Scan_def)
next
  case (Inr absPath)
  show ?thesis
  proof (cases "isGitRepo m absPath")
    case False
    then have "result = scanPaths s fs absPath [] (emptyResult absPath)"
      using assms Inr by (simp add: Scan_def emptyResult_def)
    then show ?thesis using that[OF Inr] False by simp
  next
    case True
    show ?thesis
    proof (cases "getGitIgnoredFiles m absPath")
      case (Inl e)
      then show ?thesis using assms Inr True by (simp add: Scan_def)
    next
      case ps: (Inr ps)
      then have "result = scanPaths s fs absPath ps (emptyResult absPath)"
        using assms Inr True by (simp add: Scan_def emptyResult_def)
      then show ?thesis using that[OF Inr] True ps by simp
    qed
  qed
qed

lemma Scan_sums:
  assumes "Scan s m fs rootPath = Inr result"
  shows "TotalSize result = sum_list (map Size (IgnoredFiles result))"
    and "SecretCount result = int (length (filter IsSecret (IgnoredFiles result)))"
proof -
  from assms obtain absPath ps where r: "result = scanPaths s fs absPath ps (emptyResult absPath)"
    by (rule Scan_cases)
  have "TotalSize (emptyResult absPath) = sum_list (map Size (IgnoredFiles (emptyResult absPath)))"
    "SecretCount (emptyResult absPath) = int (length (filter IsSecret (IgnoredFiles (emptyResult absPath))))"
    by (simp_all add: emptyResult_def)
  from scanPaths_sums[OF this, of s fs absPath ps]
  show "TotalSize result = sum_list (map Size (IgnoredFiles result))"
    and "SecretCount result = int (length (filter IsSecret (IgnoredFiles result)))"
    unfolding r by simp_all
qed

lemma Scan_files:
  assumes "Scan s m fs rootPath = Inr result"
  obtains absPath ignoredPaths where
    "IgnoredFiles result = List.map_filter (scanOne s fs absPath) ignoredPaths"
    "\<And>s'. Scan s' m fs rootPath = Inr (scanPaths s' fs absPath ignoredPaths (emptyResult absPath))"
proof -
  from assms obtain absPath ps where
    a: "filepath_Abs m rootPath = Inr absPath"
    and r: "result = scanPaths s fs absPath ps (emptyResult absPath)"
    and ps: "ps = (if isGitRepo m absPath then case getGitIgnoredFiles m absPath of Inr ps \<Rightarrow> ps | Inl e \<Rightarrow> [] else [])"
    by (rule Scan_cases)
  have ok: "isGitRepo m absPath \<Longrightarrow> \<exists>qs. getGitIgnoredFiles m absPath = Inr qs"
    using assms a by (cases "getGitIgnoredFiles m absPath") (simp_all add: Scan_def)
  have 1: "IgnoredFiles result = List.map_filter (scanOne s fs absPath) ps"
    unfolding r scanPaths_files by (simp add: emptyResult_def)
  have 2: "Scan s' m fs rootPath = Inr (scanPaths s' fs absPath ps (emptyResult absPath))" for s'
    using a ok ps by (auto simp: Scan_def emptyResult_def)
  show ?thesis using that[OF 1 2] .
qed

lemma signed_take_bit_add_right:
  "signed_take_bit n (a + signed_take_bit n b) = signed_take_bit n (a + b)" for a b :: int
proof -
  have "signed_take_bit n (a + signed_take_bit n b)
          = signed_take_bit n (signed_take_bit n a + signed_take_bit n (signed_take_bit n b))"
    by (simp only: signed_take_bit_add)
  also have "\<dots> = signed_take_bit n (signed_take_bit n a + signed_take_bit n b)"
    by simp
  also have "\<dots> = signed_take_bit n (a + b)"
    by (simp only: signed_take_bit_add)
  finally show ?thesis .
qed

lemma sint_sum_list:
  "sint (sum_list ws :: 64 word) = signed_take_bit 63 (sum_list (map sint ws))"
proof (induction ws)
  case Nil
  then show ?case by simp
next
  case (Cons w ws)
  have "sint (w + sum_list ws) = signed_take_bit 63 (sint w + sint (sum_list ws))"
    by (simp add: sint_word_add)
  also have "\<dots> = signed_take_bit 63 (sint w + sum_list (map sint ws))"
    unfolding Cons.IH by (rule signed_take_bit_add_right)
  finally show ?case by simp
qed

lemma map_filter_secret_ShowAll:
  "filter IsSecret (List.map_filter (scanOne (s\<lparr>ShowAll := True\<rparr>) fs absPath) paths)
     = filter IsSecret (List.map_filter (scanOne s fs absPath) paths)"
proof (induction paths)
  case Nil
  then show ?case by (simp add: List.map_filter_simps)
next
  case (Cons path rest)
  let ?all = "scanOne (s\<lparr>ShowAll := True\<rparr>) fs absPath path"
  let ?one = "scanOne s fs absPath path"
  have "?all = ?one \<or> (?one = None \<and> (\<exists>f. ?all = Some f \<and> \<not> IsSecret f))"
    by (auto simp: scanOne_def split: option.splits node.splits)
  then consider (same) "?all = ?one"
    | (dropped) f where "?one = None" "?all = Some f" "\<not> IsSecret f"
    by blast
  then show ?case
  proof cases
    case same
    then show ?thesis using Cons.IH
      by (cases ?one) (simp_all add: List.map_filter_simps)
  next
    case dropped
    then show ?thesis using Cons.IH by (simp add: List.map_filter_simps)
  qed
qed

lemma Scan_classified:
  assumes "Scan s m fs rootPath = Inr result" and "f \<in> set (IgnoredFiles result)"
  shows "Category f = categorizeFile (Path f)"
    and "IsSecret f = isSecretFile (Path f) (categorizeFile (Path f))"
    and "ShowAll s \<or> IsSecret f"
proof -
  from assms(1) obtain absPath ps where
    "IgnoredFiles result = List.map_filter (scanOne s fs absPath) ps"
    by (rule Scan_files)
  with assms(2) obtain path where "scanOne s fs absPath path = Some f"
    by (auto simp: List.map_filter_def)
  then show "Category f = categorizeFile (Path f)"
    and "IsSecret f = isSecretFile (Path f) (categorizeFile (Path f))"
    and "ShowAll s \<or> IsSecret f"
    by (auto dest: scanOne_classified)
qed


lemma example_Scan:
  "Scan NewScanner example_machine example_fs ''/home/u/my-app'' = Inr example_result"
  by code_simp

lemma example_Scan_ShowAll:
  "Scan (NewScanner\<lparr>ShowAll := True\<rparr>) example_machine example_fs ''/home/u/my-app''
     = Inr example_scanned"
  by code_simp

lemma example_collect:
  "collectSingleRepo NewScanner example_machine example_fs ''/home/u/my-app'' =
     Inr [\<lparr>Repo_Name = ''my-app'', Repo_Path = ''/home/u/my-app'', Repo_Files = [''.env'']\<rparr>]"
  by code_simp


text \<open>
  C9 (aggregate consistency). For every result of \<open>Scan\<close>, \<open>TotalSize\<close> is the sum of
  \<open>Size\<close> over \<open>IgnoredFiles\<close> (in \<open>int64\<close> arithmetic, which wraps: the signed value is
  the sum of the signed sizes reduced to 64 bits) and \<open>SecretCount\<close> is the number of its
  entries flagged secret. Both range over the entries of the result only: each of them
  passed the filter (show-all, or secret).
\<close>

theorem Scan_aggregates:
  assumes "Scan s m fs rootPath = Inr result"
  shows "TotalSize result = sum_list (map Size (IgnoredFiles result))
         \<and> sint (TotalSize result)
             = signed_take_bit 63 (\<Sum>f\<leftarrow>IgnoredFiles result. sint (Size f))
         \<and> SecretCount result = int (length (filter IsSecret (IgnoredFiles result)))
         \<and> (\<forall>f \<in> set (IgnoredFiles result). ShowAll s \<or> IsSecret f)"
proof -
  have t: "TotalSize result = sum_list (map Size (IgnoredFiles result))"
    using assms by (rule Scan_sums(1))
  have "sint (TotalSize result)
          = signed_take_bit 63 (sum_list (map sint (map Size (IgnoredFiles result))))"
    unfolding t by (rule sint_sum_list)
  then have "sint (TotalSize result)
             = signed_take_bit 63 (\<Sum>f\<leftarrow>IgnoredFiles result. sint (Size f))"
    by (simp add: comp_def)
  moreover have "\<forall>f \<in> set (IgnoredFiles result). ShowAll s \<or> IsSecret f"
    using Scan_classified(3) [OF assms] by blast
  ultimately show ?thesis using t Scan_sums(2) [OF assms] by blast
qed

theorem Scan_aggregates_witness:
  "Scan NewScanner example_machine example_fs ''/home/u/my-app'' = Inr example_result
   \<and> IgnoredFiles example_result = [example_file]
   \<and> TotalSize example_result = sum_list (map Size (IgnoredFiles example_result))
   \<and> TotalSize example_result = 3
   \<and> SecretCount example_result = int (length (filter IsSecret (IgnoredFiles example_result)))
   \<and> SecretCount example_result = 1"
  using Scan_aggregates [OF example_Scan] example_Scan
  by (simp add: example_result_def)


section \<open>Properties of export\<close>

lemma collectSingleRepo_secret:
  assumes "collectSingleRepo s m fs path = Inr repos" and "repo \<in> set repos"
    and "filePath \<in> set (Repo_Files repo)"
  shows "isSecretFile filePath (categorizeFile filePath)"
proof (cases "Scan s m fs path")
  case (Inl e)
  then show ?thesis using assms by (simp add: collectSingleRepo_def)
next
  case (Inr result)
  from assms have "filePath \<in> set (map Path (filter IsSecret (IgnoredFiles result)))"
    by (auto simp: collectSingleRepo_def Inr secretPaths_eq Let_def split: if_splits)
  then obtain f where "f \<in> set (IgnoredFiles result)" "IsSecret f" "Path f = filePath"
    by auto
  with Scan_classified(2) [OF Inr] show ?thesis by auto
qed

lemma collectReposRecursive_secret:
  assumes "\<forall>repo \<in> set repos. \<forall>filePath \<in> set (Repo_Files repo).
             isSecretFile filePath (categorizeFile filePath)"
  shows "\<forall>repo \<in> set (collectReposRecursive s m fs roots repos).
           \<forall>filePath \<in> set (Repo_Files repo).
             isSecretFile filePath (categorizeFile filePath)"
  using assms
proof (induction roots arbitrary: repos)
  case Nil
  then show ?case by simp
next
  case (Cons repoPath roots)
  show ?case
  proof (cases "collectSingleRepo s m fs repoPath")
    case (Inl e)
    then show ?thesis using Cons by simp
  next
    case (Inr repoExports)
    have "\<forall>repo \<in> set (repos @ repoExports). \<forall>filePath \<in> set (Repo_Files repo).
             isSecretFile filePath (categorizeFile filePath)"
      using Cons.prems collectSingleRepo_secret [OF Inr] by auto
    from Cons.IH [OF this] Cons.IH [OF Cons.prems] show ?thesis
      using Inr by simp
  qed
qed

lemma collectSingleRepo_Scan:
  assumes "Scan s m fs path = Inr result"
  shows "collectSingleRepo s m fs path =
           Inr (if map Path (filter IsSecret (IgnoredFiles result)) = [] then []
                else [\<lparr>Repo_Name = filepath_Base path, Repo_Path = path,
                       Repo_Files = map Path (filter IsSecret (IgnoredFiles result))\<rparr>])"
  using assms by (auto simp: collectSingleRepo_def secretPaths_eq Let_def)

lemma Scan_error:
  "Scan s m fs rootPath = Inl e \<Longrightarrow> Scan s' m fs rootPath = Inl e"
  by (auto simp: Scan_def Let_def split: sum.splits if_splits)

lemma collectSingleRepo_exact:
  assumes "Scan (s\<lparr>ShowAll := True\<rparr>) m fs path = Inr scanned"
  shows "collectSingleRepo s m fs path =
           Inr (if map Path (filter IsSecret (IgnoredFiles scanned)) = [] then []
                else [\<lparr>Repo_Name = filepath_Base path, Repo_Path = path,
                       Repo_Files = map Path (filter IsSecret (IgnoredFiles scanned))\<rparr>])"
proof -
  from assms obtain absPath ps where
    all: "IgnoredFiles scanned = List.map_filter (scanOne (s\<lparr>ShowAll := True\<rparr>) fs absPath) ps"
    and any: "\<forall>s'. Scan s' m fs path = Inr (scanPaths s' fs absPath ps (emptyResult absPath))"
    by (rule Scan_files) blast
  let ?result = "scanPaths s fs absPath ps (emptyResult absPath)"
  have "IgnoredFiles ?result = List.map_filter (scanOne s fs absPath) ps"
    by (simp add: scanPaths_files emptyResult_def)
  then have "filter IsSecret (IgnoredFiles ?result) = filter IsSecret (IgnoredFiles scanned)"
    unfolding all by (simp add: map_filter_secret_ShowAll)
  with collectSingleRepo_Scan [OF any [rule_format, of s]]
  show ?thesis by simp
qed

lemma collectSingleRepo_exportOf:
  "(case collectSingleRepo s m fs root of Inl e \<Rightarrow> [] | Inr repoExports \<Rightarrow> repoExports)
     = exportOf s m fs root"
proof (cases "Scan (s\<lparr>ShowAll := True\<rparr>) m fs root")
  case (Inl e)
  from Scan_error [OF this, of s] Inl show ?thesis
    by (simp add: exportOf_def collectSingleRepo_def)
next
  case (Inr scanned)
  from collectSingleRepo_exact [OF this] Inr show ?thesis
    by (simp add: exportOf_def)
qed

lemma collectReposRecursive_exact:
  "collectReposRecursive s m fs roots repos = repos @ concat (map (exportOf s m fs) roots)"
proof (induction roots arbitrary: repos)
  case Nil
  then show ?case by simp
next
  case (Cons repoPath roots)
  show ?case
    using collectSingleRepo_exportOf [of s m fs repoPath]
    by (cases "collectSingleRepo s m fs repoPath") (auto simp: Cons.IH)
qed

text \<open>
  C4 (export restricts to secrets). Whatever the scanner's show-all flag, the files of
  the \<open>RepoExport\<close> that \<open>collectSingleRepo\<close> builds are exactly the paths of the scanned
  ignored files (the records a show-all scan lists) whose \<open>IsSecret\<close> flag is set, in scan
  order, and no \<open>RepoExport\<close> is built when there is none. The flag of a scanned file is
  the classifier's verdict on its path. A recursive export collects, root by root and in
  the order of the walk, exactly what the single export collects for that root (nothing
  for a root whose scan fails), so every file of every \<open>RepoExport\<close> of a recursive
  export is secret by that verdict.
\<close>

theorem export_restricts_to_secrets:
  assumes "Scan (s\<lparr>ShowAll := True\<rparr>) m fs path = Inr scanned"
  shows "collectSingleRepo s m fs path =
           Inr (if map Path (filter IsSecret (IgnoredFiles scanned)) = [] then []
                else [\<lparr>Repo_Name = filepath_Base path, Repo_Path = path,
                       Repo_Files = map Path (filter IsSecret (IgnoredFiles scanned))\<rparr>])
         \<and> (\<forall>f \<in> set (IgnoredFiles scanned).
               IsSecret f = isSecretFile (Path f) (categorizeFile (Path f)))
         \<and> collectReposRecursive s m fs roots [] =
             concat (map (\<lambda>root.
               case Scan (s\<lparr>ShowAll := True\<rparr>) m fs root of
                 Inl e \<Rightarrow> []
               | Inr found \<Rightarrow>
                   (if map Path (filter IsSecret (IgnoredFiles found)) = [] then []
                    else [\<lparr>Repo_Name = filepath_Base root, Repo_Path = root,
                           Repo_Files = map Path (filter IsSecret (IgnoredFiles found))\<rparr>]))
               roots)
         \<and> collectReposRecursive s m fs (before @ path # after) [] =
             collectReposRecursive s m fs before []
             @ (if map Path (filter IsSecret (IgnoredFiles scanned)) = [] then []
                else [\<lparr>Repo_Name = filepath_Base path, Repo_Path = path,
                       Repo_Files = map Path (filter IsSecret (IgnoredFiles scanned))\<rparr>])
             @ collectReposRecursive s m fs after []
         \<and> (\<forall>repo \<in> set (collectReposRecursive s m fs roots []).
               \<forall>filePath \<in> set (Repo_Files repo).
                 isSecretFile filePath (categorizeFile filePath))"
proof (intro conjI ballI)
  show "collectSingleRepo s m fs path =
           Inr (if map Path (filter IsSecret (IgnoredFiles scanned)) = [] then []
                else [\<lparr>Repo_Name = filepath_Base path, Repo_Path = path,
                       Repo_Files = map Path (filter IsSecret (IgnoredFiles scanned))\<rparr>])"
    using assms by (rule collectSingleRepo_exact)
next
  fix f assume "f \<in> set (IgnoredFiles scanned)"
  with Scan_classified(2) [OF assms]
  show "IsSecret f = isSecretFile (Path f) (categorizeFile (Path f))" by simp
next
  have "exportOf s m fs = (\<lambda>root.
               case Scan (s\<lparr>ShowAll := True\<rparr>) m fs root of
                 Inl e \<Rightarrow> []
               | Inr found \<Rightarrow>
                   (if map Path (filter IsSecret (IgnoredFiles found)) = [] then []
                    else [\<lparr>Repo_Name = filepath_Base root, Repo_Path = root,
                           Repo_Files = map Path (filter IsSecret (IgnoredFiles found))\<rparr>]))"
    by (rule ext) (simp add: exportOf_def)
  then show "collectReposRecursive s m fs roots [] =
             concat (map (\<lambda>root.
               case Scan (s\<lparr>ShowAll := True\<rparr>) m fs root of
                 Inl e \<Rightarrow> []
               | Inr found \<Rightarrow>
                   (if map Path (filter IsSecret (IgnoredFiles found)) = [] then []
                    else [\<lparr>Repo_Name = filepath_Base root, Repo_Path = root,
                           Repo_Files = map Path (filter IsSecret (IgnoredFiles found))\<rparr>]))
               roots)"
    using collectReposRecursive_exact [of s m fs roots "[]"] by simp
next
  have "exportOf s m fs path =
          (if map Path (filter IsSecret (IgnoredFiles scanned)) = [] then []
           else [\<lparr>Repo_Name = filepath_Base path, Repo_Path = path,
                  Repo_Files = map Path (filter IsSecret (IgnoredFiles scanned))\<rparr>])"
    using assms by (simp add: exportOf_def)
  then show "collectReposRecursive s m fs (before @ path # after) [] =
             collectReposRecursive s m fs before []
             @ (if map Path (filter IsSecret (IgnoredFiles scanned)) = [] then []
                else [\<lparr>Repo_Name = filepath_Base path, Repo_Path = path,
                       Repo_Files = map Path (filter IsSecret (IgnoredFiles scanned))\<rparr>])
             @ collectReposRecursive s m fs after []"
    by (simp add: collectReposRecursive_exact)
next
  fix repo filePath
  assume "repo \<in> set (collectReposRecursive s m fs roots [])"
    and "filePath \<in> set (Repo_Files repo)"
  then show "isSecretFile filePath (categorizeFile filePath)"
    using collectReposRecursive_secret [of "[]" s m fs roots] by simp
qed

lemma example_Scan_other:
  "Scan (NewScanner\<lparr>ShowAll := True\<rparr>) example_machine example_fs ''/home/u/other''
     = Inr (emptyResult ''/home/u/other'')"
  by code_simp

theorem export_restricts_to_secrets_witness:
  "Scan (NewScanner\<lparr>ShowAll := True\<rparr>) example_machine example_fs ''/home/u/my-app''
     = Inr example_scanned
   \<and> map Path (IgnoredFiles example_scanned) = [''.env'', ''build/output.log'']
   \<and> collectSingleRepo NewScanner example_machine example_fs ''/home/u/my-app'' =
       Inr [\<lparr>Repo_Name = ''my-app'', Repo_Path = ''/home/u/my-app'', Repo_Files = [''.env'']\<rparr>]
   \<and> collectReposRecursive NewScanner example_machine example_fs
         [''/home/u/other'', ''/home/u/my-app''] [] =
       [\<lparr>Repo_Name = ''my-app'', Repo_Path = ''/home/u/my-app'', Repo_Files = [''.env'']\<rparr>]
   \<and> \<not> isSecretFile ''build/output.log'' (categorizeFile ''build/output.log'')
   \<and> isSecretFile ''.env'' (categorizeFile ''.env'')"
proof -
  have base: "filepath_Base ''/home/u/my-app'' = ''my-app''" by code_simp
  have n: "\<not> isSecretFile ''build/output.log'' (categorizeFile ''build/output.log'')"
    by code_simp
  have y: "isSecretFile ''.env'' (categorizeFile ''.env'')" by code_simp
  note inst = export_restricts_to_secrets [OF example_Scan_ShowAll,
      of "[''/home/u/other'', ''/home/u/my-app'']" "[]" "[]"]
  from inst [THEN conjunct1]
  have single: "collectSingleRepo NewScanner example_machine example_fs ''/home/u/my-app'' =
       Inr [\<lparr>Repo_Name = ''my-app'', Repo_Path = ''/home/u/my-app'', Repo_Files = [''.env'']\<rparr>]"
    by (simp add: example_scanned_def example_file_def base)
  from inst [THEN conjunct2, THEN conjunct2, THEN conjunct1]
  have recursive: "collectReposRecursive NewScanner example_machine example_fs
         [''/home/u/other'', ''/home/u/my-app''] [] =
       [\<lparr>Repo_Name = ''my-app'', Repo_Path = ''/home/u/my-app'', Repo_Files = [''.env'']\<rparr>]"
    by (simp add: example_Scan_ShowAll example_Scan_other emptyResult_def
          example_scanned_def example_file_def base)
  from example_Scan_ShowAll n y single recursive show ?thesis
    by (simp add: example_scanned_def example_file_def)
qed

section \<open>Properties of import\<close>

lemma dropWhile_sep:
  "CHR ''/'' \<notin> set a \<Longrightarrow> dropWhile (\<lambda>c. c \<noteq> CHR ''/'') (a @ CHR ''/'' # b) = CHR ''/'' # b"
  by (induction a) auto

lemma takeWhile_sep:
  "CHR ''/'' \<notin> set a \<Longrightarrow> takeWhile (\<lambda>c. c \<noteq> CHR ''/'') (a @ CHR ''/'' # b) = a"
  by (induction a) auto

lemma dropWhile_no_sep:
  "CHR ''/'' \<notin> set a \<Longrightarrow> dropWhile (\<lambda>c. c \<noteq> CHR ''/'') a = []"
  by (induction a) auto

lemma SplitN2_sep:
  assumes "CHR ''/'' \<notin> set a"
  shows "strings_SplitN2 (a @ CHR ''/'' # b) = [a, b]"
  unfolding strings_SplitN2_def dropWhile_sep [OF assms] takeWhile_sep [OF assms] by simp

lemma SplitN2_no_sep:
  assumes "CHR ''/'' \<notin> set a"
  shows "strings_SplitN2 a = [a]"
  unfolding strings_SplitN2_def dropWhile_no_sep [OF assms] by simp

lemma split_at_sep:
  "dropWhile (\<lambda>c. c \<noteq> CHR ''/'') s = c # rest \<Longrightarrow>
     s = takeWhile (\<lambda>c. c \<noteq> CHR ''/'') s @ CHR ''/'' # rest
     \<and> CHR ''/'' \<notin> set (takeWhile (\<lambda>c. c \<noteq> CHR ''/'') s)"
  by (induction s) (auto split: if_splits)

lemma SplitN2_two:
  assumes "strings_SplitN2 s = [a, b]"
  shows "s = a @ CHR ''/'' # b \<and> CHR ''/'' \<notin> set a"
proof (cases "dropWhile (\<lambda>c. c \<noteq> CHR ''/'') s")
  case Nil
  have "strings_SplitN2 s = [s]" unfolding strings_SplitN2_def Nil by simp
  then show ?thesis using assms by simp
next
  case (Cons c rest)
  have "strings_SplitN2 s = [takeWhile (\<lambda>c. c \<noteq> CHR ''/'') s, rest]"
    unfolding strings_SplitN2_def Cons by simp
  then have "a = takeWhile (\<lambda>c. c \<noteq> CHR ''/'') s" and "b = rest"
    using assms by simp_all
  with split_at_sep [OF Cons] show ?thesis by simp
qed

lemma length_SplitN2: "length (strings_SplitN2 s) = 1 \<or> length (strings_SplitN2 s) = 2"
proof (cases "dropWhile (\<lambda>c. c \<noteq> CHR ''/'') s")
  case Nil
  show ?thesis unfolding strings_SplitN2_def Nil by simp
next
  case (Cons c rest)
  show ?thesis unfolding strings_SplitN2_def Cons by simp
qed

lemma HasPrefix_append: "strings_HasPrefix (p @ s) p"
  by (simp add: strings_HasPrefix_def)

lemma TrimPrefix_append: "strings_TrimPrefix (p @ s) p = s"
  by (simp add: strings_TrimPrefix_def strings_HasPrefix_def)

lemma HasPrefix_split: "strings_HasPrefix s p \<Longrightarrow> s = p @ strings_TrimPrefix s p"
  unfolding strings_TrimPrefix_def strings_HasPrefix_def
  by (metis append_take_drop_id)

lemma entryTarget_files:
  "entryTarget (''files/'' @ rel) =
     (case strings_SplitN2 rel of [a, b] \<Rightarrow> Some (a, b) | _ \<Rightarrow> None)"
proof -
  have p: "strings_HasPrefix (''files/'' @ rel) ''files/''" by (rule HasPrefix_append)
  have t: "strings_TrimPrefix (''files/'' @ rel) ''files/'' = rel" by (rule TrimPrefix_append)
  from length_SplitN2 [of rel] show ?thesis
  proof
    assume "length (strings_SplitN2 rel) = 1"
    then obtain a where "strings_SplitN2 rel = [a]"
      by (cases "strings_SplitN2 rel") auto
    then show ?thesis unfolding entryTarget_def Let_def t using p by simp
  next
    assume "length (strings_SplitN2 rel) = 2"
    then obtain a b where "strings_SplitN2 rel = [a, b]"
      by (cases "strings_SplitN2 rel") (auto simp: length_Suc_conv)
    then show ?thesis unfolding entryTarget_def Let_def t using p by simp
  qed
qed

lemma entryTarget_Some:
  "entryTarget name = Some (repoName, filePath) \<longleftrightarrow>
     name = ''files/'' @ repoName @ ''/'' @ filePath \<and> CHR ''/'' \<notin> set repoName"
proof
  assume a: "name = ''files/'' @ repoName @ ''/'' @ filePath \<and> CHR ''/'' \<notin> set repoName"
  then have "strings_SplitN2 (repoName @ ''/'' @ filePath) = [repoName, filePath]"
    using SplitN2_sep [of repoName filePath] by simp
  then show "entryTarget name = Some (repoName, filePath)"
    using a entryTarget_files [of "repoName @ ''/'' @ filePath"] by simp
next
  assume t: "entryTarget name = Some (repoName, filePath)"
  have p: "strings_HasPrefix name ''files/''"
  proof (rule ccontr)
    assume "\<not> strings_HasPrefix name ''files/''"
    then have "entryTarget name = None" by (simp add: entryTarget_def)
    with t show False by simp
  qed
  define rel where "rel = strings_TrimPrefix name ''files/''"
  have name: "name = ''files/'' @ rel" unfolding rel_def using p by (rule HasPrefix_split)
  have "strings_SplitN2 rel = [repoName, filePath]"
  proof -
    from length_SplitN2 [of rel] show ?thesis
    proof
      assume "length (strings_SplitN2 rel) = 1"
      then obtain a where "strings_SplitN2 rel = [a]"
        by (cases "strings_SplitN2 rel") auto
      with t show ?thesis unfolding name entryTarget_files by simp
    next
      assume "length (strings_SplitN2 rel) = 2"
      then obtain a b where "strings_SplitN2 rel = [a, b]"
        by (cases "strings_SplitN2 rel") (auto simp: length_Suc_conv)
      with t show ?thesis unfolding name entryTarget_files by simp
    qed
  qed
  from SplitN2_two [OF this] name
  show "name = ''files/'' @ repoName @ ''/'' @ filePath \<and> CHR ''/'' \<notin> set repoName"
    by simp
qed

lemma entryTarget_one_segment:
  assumes "CHR ''/'' \<notin> set seg"
  shows "entryTarget (''files/'' @ seg) = None"
  unfolding entryTarget_files SplitN2_no_sep [OF assms] by simp

lemma entryTarget_no_prefix:
  "\<not> strings_HasPrefix name ''files/'' \<Longrightarrow> entryTarget name = None"
  by (simp add: entryTarget_def)

lemma importEntries_Cons:
  "importEntries flags repoMap (file # rest) (fs, printed) =
     (case importEntry flags repoMap fs file of
        (fs', out) \<Rightarrow> importEntries flags repoMap rest (fs', printed @ out))"
  by (simp add: importEntry_def extractTo_def entryTarget_def Let_def split: option.split prod.split)

lemma importEntries_printed:
  "importEntries flags repoMap files (fs, printed) =
     (case importEntries flags repoMap files (fs, []) of
        (fs', out) \<Rightarrow> (fs', printed @ out))"
proof (induction files arbitrary: fs printed)
  case Nil
  then show ?case by simp
next
  case (Cons z rest)
  obtain fs1 out1 where e: "importEntry flags repoMap fs z = (fs1, out1)"
    by (cases "importEntry flags repoMap fs z")
  obtain fs2 out2 where r: "importEntries flags repoMap rest (fs1, []) = (fs2, out2)"
    by (cases "importEntries flags repoMap rest (fs1, [])")
  show ?case
    unfolding importEntries_Cons e prod.case
    using Cons.IH [of fs1 "printed @ out1"] Cons.IH [of fs1 out1] r by simp
qed

lemma importEntries_append:
  "importEntries flags repoMap (xs @ ys) acc =
     importEntries flags repoMap ys (importEntries flags repoMap xs acc)"
proof (induction xs arbitrary: acc)
  case Nil
  then show ?case by simp
next
  case (Cons z rest)
  obtain fs printed where acc: "acc = (fs, printed)" by (cases acc)
  obtain fs1 out1 where e: "importEntry flags repoMap fs z = (fs1, out1)"
    by (cases "importEntry flags repoMap fs z")
  show ?case unfolding acc append_Cons importEntries_Cons e prod.case by (rule Cons.IH)
qed


lemma importEntry_skip:
  assumes "\<not> processed repoMap z"
  shows "importEntry flags repoMap fs z = (fs, [])"
proof (cases "entryTarget (Zip_Name z)")
  case None
  then show ?thesis by (simp add: importEntry_def)
next
  case (Some t)
  obtain repoName filePath where t: "t = (repoName, filePath)" by (cases t)
  with assms Some have "repoMap repoName = None"
    by (cases "repoMap repoName") (simp_all add: processed_def)
  then show ?thesis by (simp add: importEntry_def Some t)
qed







lemma buildRepoMap_dom:
  "dom (buildRepoMap repos repoMap) = dom repoMap \<union> Repo_Name ` set repos"
  by (induction repos arbitrary: repoMap) auto

lemma buildRepoMap_Some:
  "buildRepoMap repos repoMap name = Some repo \<Longrightarrow>
     repoMap name = Some repo \<or> (repo \<in> set repos \<and> Repo_Name repo = name)"
proof (induction repos arbitrary: repoMap)
  case Nil
  then show ?case by simp
next
  case (Cons r rest)
  from Cons.prems have "buildRepoMap rest (repoMap(Repo_Name r \<mapsto> r)) name = Some repo"
    by simp
  from Cons.IH [OF this]
  have "(repoMap(Repo_Name r \<mapsto> r)) name = Some repo
        \<or> (repo \<in> set rest \<and> Repo_Name repo = name)" .
  then show ?case by (cases "name = Repo_Name r") auto
qed

text \<open>
  C5 (destination fallback order). The destination of a file is
  \<open>baseDir/repo.name/relativeFile\<close> when a base directory was given; otherwise
  \<open>repo.path/relativeFile\<close> when \<open>repo.path\<close> is a directory of this machine; otherwise
  \<open>./repo.name/relativeFile\<close>; each joined and cleaned by \<open>filepath.Join\<close>.
\<close>

theorem resolveDestPath_priority:
  "(importBaseDir flags \<noteq> [] \<longrightarrow>
      resolveDestPath flags fs repo relativeFile
        = filepath_Join [importBaseDir flags, Repo_Name repo, relativeFile])
   \<and> (importBaseDir flags = [] \<and> (\<exists>mode. os_Stat fs (Repo_Path repo) = Some (Dir mode)) \<longrightarrow>
      resolveDestPath flags fs repo relativeFile
        = filepath_Join [Repo_Path repo, relativeFile])
   \<and> (importBaseDir flags = [] \<and> (\<forall>mode. os_Stat fs (Repo_Path repo) \<noteq> Some (Dir mode)) \<longrightarrow>
      resolveDestPath flags fs repo relativeFile
        = filepath_Join [''.'', Repo_Name repo, relativeFile])"
  by (auto simp: resolveDestPath_def dirExists_def split: option.splits node.splits)

theorem resolveDestPath_priority_witness:
  "importBaseDir restore_flags \<noteq> []
   \<and> resolveDestPath restore_flags example_fs restore_repo ''config/.env.local''
       = ''/tmp/restore/my-app/config/.env.local''
   \<and> importBaseDir (restore_flags\<lparr>importBaseDir := []\<rparr>) = []
   \<and> os_Stat example_fs (Repo_Path restore_repo) = Some (Dir 493)
   \<and> resolveDestPath (restore_flags\<lparr>importBaseDir := []\<rparr>) example_fs restore_repo
         ''config/.env.local''
       = ''/home/u/my-app/config/.env.local''
   \<and> os_Stat Map.empty (Repo_Path restore_repo) = None
   \<and> resolveDestPath (restore_flags\<lparr>importBaseDir := []\<rparr>) Map.empty restore_repo
         ''config/.env.local''
       = ''my-app/config/.env.local''"
proof -
  let ?nobase = "restore_flags\<lparr>importBaseDir := []\<rparr>"
  have b: "importBaseDir restore_flags \<noteq> []" by (simp add: restore_flags_def)
  have n: "importBaseDir ?nobase = []" by simp
  have d: "os_Stat example_fs (Repo_Path restore_repo) = Some (Dir 493)" by code_simp
  have a: "os_Stat Map.empty (Repo_Path restore_repo) = None" by code_simp
  have j1: "filepath_Join [importBaseDir restore_flags, Repo_Name restore_repo,
              ''config/.env.local''] = ''/tmp/restore/my-app/config/.env.local''"
    by code_simp
  have j2: "filepath_Join [Repo_Path restore_repo, ''config/.env.local'']
              = ''/home/u/my-app/config/.env.local''"
    by code_simp
  have j3: "filepath_Join [''.'', Repo_Name restore_repo, ''config/.env.local'']
              = ''my-app/config/.env.local''"
    by code_simp
  have 1: "resolveDestPath restore_flags example_fs restore_repo ''config/.env.local''
             = ''/tmp/restore/my-app/config/.env.local''"
    using resolveDestPath_priority [of restore_flags example_fs restore_repo
        "''config/.env.local''"] b j1 by simp
  have 2: "resolveDestPath ?nobase example_fs restore_repo ''config/.env.local''
             = ''/home/u/my-app/config/.env.local''"
    using resolveDestPath_priority [of ?nobase example_fs restore_repo
        "''config/.env.local''"] n d j2 by simp
  have 3: "resolveDestPath ?nobase Map.empty restore_repo ''config/.env.local''
             = ''my-app/config/.env.local''"
    using resolveDestPath_priority [of ?nobase Map.empty restore_repo
        "''config/.env.local''"] n a j3 by simp
  from b n d a 1 2 3 show ?thesis by (intro conjI)
qed

lemma importFiles_Cons:
  "importFiles flags fs (z # rest) manifest =
     (case importEntry flags (buildRepoMap (Repos manifest) Map.empty) fs z of
        (fs1, out1) \<Rightarrow>
          (case importFiles flags fs1 rest manifest of
             (fs2, out2) \<Rightarrow> (fs2, out1 @ out2)))"
proof -
  let ?rm = "buildRepoMap (Repos manifest) Map.empty"
  obtain fs1 out1 where e: "importEntry flags ?rm fs z = (fs1, out1)"
    by (cases "importEntry flags ?rm fs z")
  show ?thesis
    unfolding importFiles_def importEntries_Cons e prod.case
    using importEntries_printed [of flags ?rm rest fs1 "[] @ out1"] by simp
qed

lemma importFiles_Nil: "importFiles flags fs [] manifest = (fs, [])"
  by (simp add: importFiles_def)

lemma importFiles_single:
  "importFiles flags fs [z] manifest
     = importEntry flags (buildRepoMap (Repos manifest) Map.empty) fs z"
  unfolding importFiles_Cons importFiles_Nil by (simp split: prod.split)

lemma importFiles_append:
  "importFiles flags fs (xs @ ys) manifest =
     (case importFiles flags fs xs manifest of
        (fs1, out1) \<Rightarrow>
          (case importFiles flags fs1 ys manifest of
             (fs2, out2) \<Rightarrow> (fs2, out1 @ out2)))"
proof -
  let ?rm = "buildRepoMap (Repos manifest) Map.empty"
  obtain fs1 out1 where x: "importEntries flags ?rm xs (fs, []) = (fs1, out1)"
    by (cases "importEntries flags ?rm xs (fs, [])")
  show ?thesis
    unfolding importFiles_def importEntries_append x prod.case
    using importEntries_printed [of flags ?rm ys fs1 out1] by simp
qed

lemma buildRepoMap_known:
  "(\<exists>repo. buildRepoMap (Repos manifest) Map.empty repoName = Some repo)
     \<longleftrightarrow> repoName \<in> Repo_Name ` set (Repos manifest)"
proof -
  have "dom (buildRepoMap (Repos manifest) Map.empty) = Repo_Name ` set (Repos manifest)"
    by (simp add: buildRepoMap_dom)
  then show ?thesis by (auto simp: dom_def)
qed

lemma extractTo_unfold:
  "extractTo flags fs z repo filePath =
     (let destPath = resolveDestPath flags fs repo filePath
      in case os_MkdirAll fs (filepath_Dir destPath) 493 of
           (fs1, Some e) \<Rightarrow> (fs1, [Failed filePath e])
         | (fs1, None) \<Rightarrow>
             (case Zip_Fault z of
                Some (OpenFails e) \<Rightarrow> (fs1, [Failed filePath e])
              | Some (ReadFails n e) \<Rightarrow>
                  (case os_Create fs1 destPath of
                     Inl e' \<Rightarrow> (fs1, [Failed filePath e'])
                   | Inr fs2 \<Rightarrow>
                       (fs2(destPath \<mapsto> File (take n (Zip_Data z)) (Zip_Mode z)),
                        [Failed filePath e]))
              | None \<Rightarrow>
                  (case os_Create fs1 destPath of
                     Inl e \<Rightarrow> (fs1, [Failed filePath e])
                   | Inr fs2 \<Rightarrow>
                       (fs2(destPath \<mapsto> File (Zip_Data z) (Zip_Mode z)),
                        [Extracted destPath]))))"
proof -
  let ?dest = "resolveDestPath flags fs repo filePath"
  obtain fs1 r1 where m: "os_MkdirAll fs (filepath_Dir ?dest) 493 = (fs1, r1)"
    by (cases "os_MkdirAll fs (filepath_Dir ?dest) 493")
  show ?thesis
  proof (cases r1)
    case (Some e)
    then show ?thesis by (simp add: extractTo_def m Let_def)
  next
    case mk: None
    show ?thesis
    proof (cases "Zip_Fault z")
      case None
      then show ?thesis
        by (simp add: extractTo_def m mk extractFile_def zip_Open_def io_Copy_def Let_def
              split: sum.split)
    next
      case (Some f)
      then show ?thesis
        by (cases f)
           (simp_all add: extractTo_def m mk extractFile_def zip_Open_def io_Copy_def Let_def
              split: sum.split)
    qed
  qed
qed

lemma importEntry_known:
  assumes "Zip_Name z = ''files/'' @ repoName @ ''/'' @ filePath"
    and "CHR ''/'' \<notin> set repoName" and "repoMap repoName = Some repo"
  shows "importEntry flags repoMap fs z = extractTo flags fs z repo filePath"
proof -
  have "entryTarget (Zip_Name z) = Some (repoName, filePath)"
    using assms(1,2) by (simp add: entryTarget_Some)
  then show ?thesis using assms(3) by (simp add: importEntry_def)
qed

lemma importEntry_unknown:
  assumes "Zip_Name z = ''files/'' @ repoName @ ''/'' @ filePath"
    and "CHR ''/'' \<notin> set repoName" and "repoMap repoName = None"
  shows "importEntry flags repoMap fs z = (fs, [])"
proof -
  have "entryTarget (Zip_Name z) = Some (repoName, filePath)"
    using assms(1,2) by (simp add: entryTarget_Some)
  then show ?thesis using assms(3) by (simp add: importEntry_def)
qed

lemma importEntry_one_segment:
  assumes "Zip_Name z = ''files/'' @ segment" and "CHR ''/'' \<notin> set segment"
  shows "importEntry flags repoMap fs z = (fs, [])"
  using entryTarget_one_segment [OF assms(2)] assms(1) by (simp add: importEntry_def)

lemma previewFiles_eq:
  "previewFiles flags fs repo files (printed, totalFiles) =
     (printed @ map (\<lambda>path. ListedFile path
                              (fileExists fs (resolveDestPath flags fs repo path))) files,
      totalFiles + int (length files))"
  by (induction files arbitrary: printed totalFiles) (simp_all add: Let_def)

lemma previewRepos_eq:
  "previewRepos flags fs repos (printed, totalFiles) =
     (printed @ listing flags fs repos,
      totalFiles + int (length (concat (map Repo_Files repos))))"
  by (induction repos arbitrary: printed totalFiles)
     (simp_all add: listing_def previewFiles_eq)

lemma fileLines_append: "fileLines (xs @ ys) = fileLines xs @ fileLines ys"
  by (induction xs) (simp_all split: message.split)

lemma fileLines_FileLine: "fileLines (map FileLine results) = results"
  by (induction results) simp_all

lemma fileLines_listing: "fileLines (listing flags fs repos) = []"
proof (induction repos)
  case Nil
  then show ?case by (simp add: listing_def)
next
  case (Cons repo rest)
  have "fileLines (map (\<lambda>path. ListedFile path (exists path)) files) = []" for exists files
    by (induction files) simp_all
  with Cons show ?case by (simp add: listing_def fileLines_append)
qed

lemma fileLines_announced: "fileLines (announced flags fs manifest) = []"
  by (simp add: announced_def fileLines_append fileLines_listing)

lemma fileLines_closing: "fileLines (closing warning) = []"
  by (simp add: closing_def split: option.split)

lemma listedFiles_append: "listedFiles (xs @ ys) = listedFiles xs @ listedFiles ys"
  by (induction xs) (simp_all split: message.split)

lemma listedFiles_FileLine: "listedFiles (map FileLine results) = []"
  by (induction results) simp_all

lemma listedFiles_listing:
  "listedFiles (listing flags fs repos) =
     concat (map (\<lambda>repo. map (\<lambda>path. (path, fileExists fs (resolveDestPath flags fs repo path)))
                           (Repo_Files repo)) repos)"
proof (induction repos)
  case Nil
  then show ?case by (simp add: listing_def)
next
  case (Cons repo rest)
  have "listedFiles (map (\<lambda>path. ListedFile path (exists path)) files)
          = map (\<lambda>path. (path, exists path)) files" for exists files
    by (induction files) simp_all
  with Cons show ?case by (simp add: listing_def listedFiles_append)
qed

lemma listedFiles_announced:
  "listedFiles (announced flags fs manifest) =
     concat (map (\<lambda>repo. map (\<lambda>path. (path, fileExists fs (resolveDestPath flags fs repo path)))
                           (Repo_Files repo)) (Repos manifest))"
  by (simp add: announced_def listedFiles_append listedFiles_listing)

lemma listedFiles_closing: "listedFiles (closing warning) = []"
  by (simp add: closing_def split: option.split)

lemma runImport_confirmed:
  assumes "\<not> importDryRun flags" and "confirmed flags stdin"
    and "readManifest y archive = Inr manifest"
  shows "runImport y m flags stdin fs archive =
           Inr (fst (importPatterns m (fst (importFiles flags fs archive manifest)) archive),
                announced flags fs manifest
                @ map FileLine (snd (importFiles flags fs archive manifest))
                @ closing (snd (importPatterns m (fst (importFiles flags fs archive manifest))
                                  archive)))"
  using assms
  by (auto simp: runImport_def previewRepos_eq announced_def closing_def confirmed_def Let_def
        split: prod.split option.split)

text \<open>
  C10 (extraction is archive-driven), as the code has it. In a restore that goes ahead
  (no dry run; \<open>--yes\<close>, or \<open>y\<close>/\<open>yes\<close> answered), the per-file lines are those of
  \<open>importFiles\<close>, which walks the entries of the archive in order, each from the file
  system the entries before it left. For an entry \<open>files/<repoName>/<relativePath>\<close>
  whose \<open>repoName\<close> is a repository of the manifest the extraction to the resolved
  destination is attempted, whatever the file list of the repository holds: the parent
  directories are created, the entry is opened, the file is created and the bytes are
  copied. When the four steps succeed the file holds the entry's bytes and a success is
  printed; when one of them fails, the failure is printed for the entry and the entry is
  not extracted (after a failed copy the file holds the bytes read so far). An entry whose
  \<open>repoName\<close> is no repository of the manifest, and an entry with a single segment after
  \<open>files/\<close>, change nothing and print nothing.
\<close>

theorem importFiles_archive_driven:
  "(Zip_Name z = ''files/'' @ repoName @ ''/'' @ relativePath \<and> CHR ''/'' \<notin> set repoName
      \<and> buildRepoMap (Repos manifest) Map.empty repoName = Some repo \<longrightarrow>
    importFiles flags fs [z] manifest =
      (let destPath = resolveDestPath flags fs repo relativePath
       in case os_MkdirAll fs (filepath_Dir destPath) 493 of
            (fs1, Some e) \<Rightarrow> (fs1, [Failed relativePath e])
          | (fs1, None) \<Rightarrow>
              (case Zip_Fault z of
                 Some (OpenFails e) \<Rightarrow> (fs1, [Failed relativePath e])
               | Some (ReadFails n e) \<Rightarrow>
                   (case os_Create fs1 destPath of
                      Inl e' \<Rightarrow> (fs1, [Failed relativePath e'])
                    | Inr fs2 \<Rightarrow>
                        (fs2(destPath \<mapsto> File (take n (Zip_Data z)) (Zip_Mode z)),
                         [Failed relativePath e]))
               | None \<Rightarrow>
                   (case os_Create fs1 destPath of
                      Inl e \<Rightarrow> (fs1, [Failed relativePath e])
                    | Inr fs2 \<Rightarrow>
                        (fs2(destPath \<mapsto> File (Zip_Data z) (Zip_Mode z)),
                         [Extracted destPath])))))
   \<and> ((\<exists>repo. buildRepoMap (Repos manifest) Map.empty repoName = Some repo)
        \<longleftrightarrow> repoName \<in> Repo_Name ` set (Repos manifest))
   \<and> (Zip_Name z = ''files/'' @ repoName @ ''/'' @ relativePath \<and> CHR ''/'' \<notin> set repoName
        \<and> repoName \<notin> Repo_Name ` set (Repos manifest) \<longrightarrow>
       importFiles flags fs [z] manifest = (fs, []))
   \<and> (Zip_Name z = ''files/'' @ segment \<and> CHR ''/'' \<notin> set segment \<longrightarrow>
       importFiles flags fs [z] manifest = (fs, []))
   \<and> importFiles flags fs (earlier @ z # later) manifest =
       (case importFiles flags fs earlier manifest of
          (fs1, out1) \<Rightarrow>
            (case importFiles flags fs1 [z] manifest of
               (fs2, out2) \<Rightarrow>
                 (case importFiles flags fs2 later manifest of
                    (fs3, out3) \<Rightarrow> (fs3, out1 @ out2 @ out3))))
   \<and> (\<not> importDryRun flags \<and> confirmed flags stdin
        \<and> readManifest y archive = Inr manifest \<longrightarrow>
       (let extracted = importFiles flags fs archive manifest;
            patterns = importPatterns m (fst extracted) archive;
            messages = announced flags fs manifest @ map FileLine (snd extracted)
                         @ closing (snd patterns)
        in runImport y m flags stdin fs archive = Inr (fst patterns, messages)
           \<and> fileLines messages = snd extracted))"
proof (intro conjI impI)
  assume "Zip_Name z = ''files/'' @ repoName @ ''/'' @ relativePath \<and> CHR ''/'' \<notin> set repoName
      \<and> buildRepoMap (Repos manifest) Map.empty repoName = Some repo"
  then have "importFiles flags fs [z] manifest = extractTo flags fs z repo relativePath"
    unfolding importFiles_single by (simp add: importEntry_known)
  then show "importFiles flags fs [z] manifest =
      (let destPath = resolveDestPath flags fs repo relativePath
       in case os_MkdirAll fs (filepath_Dir destPath) 493 of
            (fs1, Some e) \<Rightarrow> (fs1, [Failed relativePath e])
          | (fs1, None) \<Rightarrow>
              (case Zip_Fault z of
                 Some (OpenFails e) \<Rightarrow> (fs1, [Failed relativePath e])
               | Some (ReadFails n e) \<Rightarrow>
                   (case os_Create fs1 destPath of
                      Inl e' \<Rightarrow> (fs1, [Failed relativePath e'])
                    | Inr fs2 \<Rightarrow>
                        (fs2(destPath \<mapsto> File (take n (Zip_Data z)) (Zip_Mode z)),
                         [Failed relativePath e]))
               | None \<Rightarrow>
                   (case os_Create fs1 destPath of
                      Inl e \<Rightarrow> (fs1, [Failed relativePath e])
                    | Inr fs2 \<Rightarrow>
                        (fs2(destPath \<mapsto> File (Zip_Data z) (Zip_Mode z)),
                         [Extracted destPath]))))"
    by (simp only: extractTo_unfold)
next
  show "(\<exists>repo. buildRepoMap (Repos manifest) Map.empty repoName = Some repo)
        \<longleftrightarrow> repoName \<in> Repo_Name ` set (Repos manifest)"
    by (rule buildRepoMap_known)
next
  assume a: "Zip_Name z = ''files/'' @ repoName @ ''/'' @ relativePath
      \<and> CHR ''/'' \<notin> set repoName \<and> repoName \<notin> Repo_Name ` set (Repos manifest)"
  then have "buildRepoMap (Repos manifest) Map.empty repoName = None"
    using buildRepoMap_known [of manifest repoName] by auto
  with a show "importFiles flags fs [z] manifest = (fs, [])"
    unfolding importFiles_single by (simp add: importEntry_unknown)
next
  assume "Zip_Name z = ''files/'' @ segment \<and> CHR ''/'' \<notin> set segment"
  then show "importFiles flags fs [z] manifest = (fs, [])"
    unfolding importFiles_single by (simp add: importEntry_one_segment)
next
  have "earlier @ z # later = earlier @ ([z] @ later)" by simp
  then show "importFiles flags fs (earlier @ z # later) manifest =
       (case importFiles flags fs earlier manifest of
          (fs1, out1) \<Rightarrow>
            (case importFiles flags fs1 [z] manifest of
               (fs2, out2) \<Rightarrow>
                 (case importFiles flags fs2 later manifest of
                    (fs3, out3) \<Rightarrow> (fs3, out1 @ out2 @ out3))))"
    by (simp only: importFiles_append) (simp split: prod.split)
next
  assume "\<not> importDryRun flags \<and> confirmed flags stdin
        \<and> readManifest y archive = Inr manifest"
  then show "let extracted = importFiles flags fs archive manifest;
            patterns = importPatterns m (fst extracted) archive;
            messages = announced flags fs manifest @ map FileLine (snd extracted)
                         @ closing (snd patterns)
        in runImport y m flags stdin fs archive = Inr (fst patterns, messages)
           \<and> fileLines messages = snd extracted"
    by (simp add: runImport_confirmed Let_def fileLines_append fileLines_announced
          fileLines_FileLine fileLines_closing)
qed

lemma restore_repoMap:
  "buildRepoMap (Repos restore_manifest) Map.empty ''my-app'' = Some restore_repo"
  by (simp add: restore_manifest_def restore_repo_def)

theorem importFiles_archive_driven_witness:
  "''notes.txt'' \<notin> set (Repo_Files restore_repo)
   \<and> Zip_Name unlisted_entry = ''files/'' @ ''my-app'' @ ''/'' @ ''notes.txt''
   \<and> buildRepoMap (Repos restore_manifest) Map.empty ''my-app'' = Some restore_repo
   \<and> snd (importFiles restore_flags Map.empty [unlisted_entry] restore_manifest)
        = [Extracted ''/tmp/restore/my-app/notes.txt'']
   \<and> fst (importFiles restore_flags Map.empty [unlisted_entry] restore_manifest)
          ''/tmp/restore/my-app/notes.txt'' = Some (File ''hello'' 420)
   \<and> Zip_Name unreadable_entry = ''files/'' @ ''my-app'' @ ''/'' @ ''token.txt''
   \<and> snd (importFiles restore_flags Map.empty [unreadable_entry] restore_manifest)
        = [Failed ''token.txt'' ErrAlgorithm]
   \<and> fst (importFiles restore_flags Map.empty [unreadable_entry] restore_manifest)
          ''/tmp/restore/my-app/token.txt'' = None
   \<and> Zip_Name truncated_entry = ''files/'' @ ''my-app'' @ ''/'' @ ''id_rsa''
   \<and> snd (importFiles restore_flags Map.empty [truncated_entry] restore_manifest)
        = [Failed ''id_rsa'' ErrUnexpectedEOF]
   \<and> fst (importFiles restore_flags Map.empty [truncated_entry] restore_manifest)
          ''/tmp/restore/my-app/id_rsa'' = Some (File ''key'' 384)
   \<and> Zip_Name foreign_entry = ''files/'' @ ''other'' @ ''/'' @ ''.env''
   \<and> ''other'' \<notin> Repo_Name ` set (Repos restore_manifest)
   \<and> importFiles restore_flags Map.empty [foreign_entry] restore_manifest = (Map.empty, [])
   \<and> Zip_Name short_entry = ''files/'' @ ''my-app''
   \<and> importFiles restore_flags Map.empty [short_entry] restore_manifest = (Map.empty, [])
   \<and> confirmed (restore_flags\<lparr>importYes := False\<rparr>) (''Yes'' @ [CHR 0x0A])
   \<and> readManifest restore_yaml (restore_archive @ [unlisted_entry]) = Inr restore_manifest
   \<and> (\<exists>restored messages.
         runImport restore_yaml example_machine (restore_flags\<lparr>importYes := False\<rparr>)
             (''Yes'' @ [CHR 0x0A]) Map.empty (restore_archive @ [unlisted_entry])
           = Inr (restored, messages)
         \<and> fileLines messages = [Extracted ''/tmp/restore/my-app/.env'',
                                  Extracted ''/tmp/restore/my-app/notes.txt'']
         \<and> restored ''/tmp/restore/my-app/notes.txt'' = Some (File ''hello'' 420))"
proof -
  let ?rhs = "\<lambda>z relativePath.
      (let destPath = resolveDestPath restore_flags Map.empty restore_repo relativePath
       in case os_MkdirAll Map.empty (filepath_Dir destPath) 493 of
            (fs1, Some e) \<Rightarrow> (fs1, [Failed relativePath e])
          | (fs1, None) \<Rightarrow>
              (case Zip_Fault z of
                 Some (OpenFails e) \<Rightarrow> (fs1, [Failed relativePath e])
               | Some (ReadFails n e) \<Rightarrow>
                   (case os_Create fs1 destPath of
                      Inl e' \<Rightarrow> (fs1, [Failed relativePath e'])
                    | Inr fs2 \<Rightarrow>
                        (fs2(destPath \<mapsto> File (take n (Zip_Data z)) (Zip_Mode z)),
                         [Failed relativePath e]))
               | None \<Rightarrow>
                   (case os_Create fs1 destPath of
                      Inl e \<Rightarrow> (fs1, [Failed relativePath e])
                    | Inr fs2 \<Rightarrow>
                        (fs2(destPath \<mapsto> File (Zip_Data z) (Zip_Mode z)),
                         [Extracted destPath]))))"
  let ?ask = "restore_flags\<lparr>importYes := False\<rparr>"
  let ?yes = "''Yes'' @ [CHR 0x0A]"
  let ?archive = "restore_archive @ [unlisted_entry]"
  note inst = importFiles_archive_driven [where manifest = restore_manifest
      and flags = restore_flags and fs = Map.empty]
  have u: "''notes.txt'' \<notin> set (Repo_Files restore_repo)" by (simp add: restore_repo_def)
  have s1: "CHR ''/'' \<notin> set ''my-app''" by simp
  \<comment> \<open>an entry that is not listed\<close>
  have n1: "Zip_Name unlisted_entry = ''files/'' @ ''my-app'' @ ''/'' @ ''notes.txt''"
    by (simp add: unlisted_entry_def)
  have "Zip_Name unlisted_entry = ''files/'' @ ''my-app'' @ ''/'' @ ''notes.txt''
        \<and> CHR ''/'' \<notin> set ''my-app''
        \<and> buildRepoMap (Repos restore_manifest) Map.empty ''my-app'' = Some restore_repo
        \<longrightarrow> importFiles restore_flags Map.empty [unlisted_entry] restore_manifest
              = ?rhs unlisted_entry ''notes.txt''"
    by (rule inst [where z = unlisted_entry and repoName = "''my-app''"
          and relativePath = "''notes.txt''" and repo = restore_repo, THEN conjunct1])
  then have eq: "importFiles restore_flags Map.empty [unlisted_entry] restore_manifest
                   = ?rhs unlisted_entry ''notes.txt''"
    using n1 s1 restore_repoMap by (elim impE) (intro conjI)
  have out: "snd (importFiles restore_flags Map.empty [unlisted_entry] restore_manifest)
        = [Extracted ''/tmp/restore/my-app/notes.txt'']"
    unfolding eq by code_simp
  have written: "fst (importFiles restore_flags Map.empty [unlisted_entry] restore_manifest)
          ''/tmp/restore/my-app/notes.txt'' = Some (File ''hello'' 420)"
    unfolding eq by code_simp
  \<comment> \<open>an entry that does not open\<close>
  have n4: "Zip_Name unreadable_entry = ''files/'' @ ''my-app'' @ ''/'' @ ''token.txt''"
    by (simp add: unreadable_entry_def)
  have "Zip_Name unreadable_entry = ''files/'' @ ''my-app'' @ ''/'' @ ''token.txt''
        \<and> CHR ''/'' \<notin> set ''my-app''
        \<and> buildRepoMap (Repos restore_manifest) Map.empty ''my-app'' = Some restore_repo
        \<longrightarrow> importFiles restore_flags Map.empty [unreadable_entry] restore_manifest
              = ?rhs unreadable_entry ''token.txt''"
    by (rule inst [where z = unreadable_entry and repoName = "''my-app''"
          and relativePath = "''token.txt''" and repo = restore_repo, THEN conjunct1])
  then have eq4: "importFiles restore_flags Map.empty [unreadable_entry] restore_manifest
                   = ?rhs unreadable_entry ''token.txt''"
    using n4 s1 restore_repoMap by (elim impE) (intro conjI)
  have out4: "snd (importFiles restore_flags Map.empty [unreadable_entry] restore_manifest)
        = [Failed ''token.txt'' ErrAlgorithm]"
    unfolding eq4 by code_simp
  have absent4: "fst (importFiles restore_flags Map.empty [unreadable_entry] restore_manifest)
          ''/tmp/restore/my-app/token.txt'' = None"
    unfolding eq4 by code_simp
  \<comment> \<open>an entry whose data stops early\<close>
  have n5: "Zip_Name truncated_entry = ''files/'' @ ''my-app'' @ ''/'' @ ''id_rsa''"
    by (simp add: truncated_entry_def)
  have "Zip_Name truncated_entry = ''files/'' @ ''my-app'' @ ''/'' @ ''id_rsa''
        \<and> CHR ''/'' \<notin> set ''my-app''
        \<and> buildRepoMap (Repos restore_manifest) Map.empty ''my-app'' = Some restore_repo
        \<longrightarrow> importFiles restore_flags Map.empty [truncated_entry] restore_manifest
              = ?rhs truncated_entry ''id_rsa''"
    by (rule inst [where z = truncated_entry and repoName = "''my-app''"
          and relativePath = "''id_rsa''" and repo = restore_repo, THEN conjunct1])
  then have eq5: "importFiles restore_flags Map.empty [truncated_entry] restore_manifest
                   = ?rhs truncated_entry ''id_rsa''"
    using n5 s1 restore_repoMap by (elim impE) (intro conjI)
  have out5: "snd (importFiles restore_flags Map.empty [truncated_entry] restore_manifest)
        = [Failed ''id_rsa'' ErrUnexpectedEOF]"
    unfolding eq5 by code_simp
  have partial5: "fst (importFiles restore_flags Map.empty [truncated_entry] restore_manifest)
          ''/tmp/restore/my-app/id_rsa'' = Some (File ''key'' 384)"
    unfolding eq5 by code_simp
  \<comment> \<open>entries that are skipped\<close>
  have n2: "Zip_Name foreign_entry = ''files/'' @ ''other'' @ ''/'' @ ''.env''"
    by (simp add: foreign_entry_def)
  have s2: "CHR ''/'' \<notin> set ''other''" by simp
  have k2: "''other'' \<notin> Repo_Name ` set (Repos restore_manifest)"
    by (simp add: restore_manifest_def restore_repo_def)
  have "Zip_Name foreign_entry = ''files/'' @ ''other'' @ ''/'' @ ''.env''
        \<and> CHR ''/'' \<notin> set ''other'' \<and> ''other'' \<notin> Repo_Name ` set (Repos restore_manifest)
        \<longrightarrow> importFiles restore_flags Map.empty [foreign_entry] restore_manifest = (Map.empty, [])"
    by (rule inst [where z = foreign_entry and repoName = "''other''"
          and relativePath = "''.env''", THEN conjunct2, THEN conjunct2, THEN conjunct1])
  then have skip2: "importFiles restore_flags Map.empty [foreign_entry] restore_manifest
                      = (Map.empty, [])"
    using n2 s2 k2 by (elim impE) (intro conjI)
  have n3: "Zip_Name short_entry = ''files/'' @ ''my-app''" by (simp add: short_entry_def)
  have "Zip_Name short_entry = ''files/'' @ ''my-app'' \<and> CHR ''/'' \<notin> set ''my-app''
        \<longrightarrow> importFiles restore_flags Map.empty [short_entry] restore_manifest = (Map.empty, [])"
    by (rule inst [where z = short_entry and segment = "''my-app''",
          THEN conjunct2, THEN conjunct2, THEN conjunct2, THEN conjunct1])
  then have skip3: "importFiles restore_flags Map.empty [short_entry] restore_manifest
                      = (Map.empty, [])"
    using n3 s1 by (elim impE) (intro conjI)
  \<comment> \<open>the whole restore, confirmed at the prompt\<close>
  have dry: "\<not> importDryRun ?ask" by (simp add: restore_flags_def)
  have yes: "confirmed ?ask ?yes" by code_simp
  have manifest: "readManifest restore_yaml ?archive = Inr restore_manifest"
    by (simp add: restore_archive_def restore_yaml_def zip_Open_def io_ReadAll_def)
  define extracted where "extracted = importFiles ?ask Map.empty ?archive restore_manifest"
  define patterns where "patterns = importPatterns example_machine (fst extracted) ?archive"
  define messages where
    "messages = announced ?ask Map.empty restore_manifest @ map FileLine (snd extracted)
                  @ closing (snd patterns)"
  have "\<not> importDryRun ?ask \<and> confirmed ?ask ?yes
        \<and> readManifest restore_yaml ?archive = Inr restore_manifest \<longrightarrow>
        runImport restore_yaml example_machine ?ask ?yes Map.empty ?archive
          = Inr (fst patterns, messages)
        \<and> fileLines messages = snd extracted"
    unfolding messages_def patterns_def extracted_def
    using importFiles_archive_driven [where manifest = restore_manifest and flags = ?ask
        and fs = Map.empty and y = restore_yaml and m = example_machine and stdin = ?yes
        and archive = ?archive, THEN conjunct2, THEN conjunct2, THEN conjunct2,
        THEN conjunct2, THEN conjunct2]
    by (simp only: Let_def)
  then have run: "runImport restore_yaml example_machine ?ask ?yes Map.empty ?archive
          = Inr (fst patterns, messages)"
    and lines: "fileLines messages = snd extracted"
    using dry yes manifest by simp_all
  have "snd extracted = [Extracted ''/tmp/restore/my-app/.env'',
                         Extracted ''/tmp/restore/my-app/notes.txt'']"
    unfolding extracted_def by code_simp
  with lines have l: "fileLines messages = [Extracted ''/tmp/restore/my-app/.env'',
                                            Extracted ''/tmp/restore/my-app/notes.txt'']"
    by simp
  have w: "fst patterns ''/tmp/restore/my-app/notes.txt'' = Some (File ''hello'' 420)"
    unfolding patterns_def extracted_def by code_simp
  from run l w have whole: "\<exists>restored messages.
         runImport restore_yaml example_machine ?ask ?yes Map.empty ?archive
           = Inr (restored, messages)
         \<and> fileLines messages = [Extracted ''/tmp/restore/my-app/.env'',
                                  Extracted ''/tmp/restore/my-app/notes.txt'']
         \<and> restored ''/tmp/restore/my-app/notes.txt'' = Some (File ''hello'' 420)"
    by blast
  from u n1 restore_repoMap out written n4 out4 absent4 n5 out5 partial5
    n2 k2 skip2 n3 skip3 yes manifest whole
  show ?thesis by (intro conjI)
qed

text \<open>
  C10 as the specification words it (every such entry is extracted) does not hold. In
  a confirmed restore the entry \<open>files/my-app/a/b\<close>, of the repository of the manifest,
  comes after \<open>files/my-app/a\<close>: the first is extracted as a regular file, so the
  directory the second needs cannot be created; a failure is printed for it and nothing is
  written at its destination.
\<close>

theorem nested_entry_counterexample:
  "Zip_Name nested_entry = ''files/my-app/a/b''
   \<and> ''my-app'' \<in> Repo_Name ` set (Repos restore_manifest)
   \<and> resolveDestPath restore_flags Map.empty restore_repo ''a/b'' = ''/tmp/restore/my-app/a/b''
   \<and> (case runImport restore_yaml example_machine restore_flags [] Map.empty
              (restore_archive @ [blocking_entry, nested_entry]) of
         Inl e \<Rightarrow> False
       | Inr (restored, messages) \<Rightarrow>
           fileLines messages = [Extracted ''/tmp/restore/my-app/.env'',
                                 Extracted ''/tmp/restore/my-app/a'',
                                 Failed ''a/b'' ENOTDIR]
           \<and> restored ''/tmp/restore/my-app/a'' = Some (File ''x'' 420)
           \<and> restored ''/tmp/restore/my-app/a/b'' = None)"
  by code_simp










text \<open>
  C3 (path traversal), as the code has it. \<open>importFiles\<close> makes no path-traversal check.
  The destination of an entry \<open>files/<repoName>/<relativePath>\<close> of a manifest repository
  is what \<open>resolveDestPath\<close> answers, whatever \<open>relativePath\<close> holds: with a base
  directory it is \<open>filepath.Join(baseDir, repoName, relativePath)\<close>, \<open>..\<close> elements
  included, so the cleaned destination can lie outside the repository's directory. When
  the parent directories can be created, the entry opens, the file can be created and the
  bytes are read to the end, the bytes are written there and a success is printed;
  otherwise a per-file failure is printed. In each case the rest of the batch is
  processed from the file system this entry left.
\<close>

theorem importFiles_no_traversal_check:
  "(Zip_Name z = ''files/'' @ repoName @ ''/'' @ relativePath \<and> CHR ''/'' \<notin> set repoName
    \<and> buildRepoMap (Repos manifest) Map.empty repoName = Some repo
    \<and> destPath = resolveDestPath flags fs repo relativePath \<longrightarrow>
    importFiles flags fs (z # rest) manifest =
      (case os_MkdirAll fs (filepath_Dir destPath) 493 of
         (fs1, Some e) \<Rightarrow>
           apsnd (Cons (Failed relativePath e)) (importFiles flags fs1 rest manifest)
       | (fs1, None) \<Rightarrow>
           (case Zip_Fault z of
              Some (OpenFails e) \<Rightarrow>
                apsnd (Cons (Failed relativePath e)) (importFiles flags fs1 rest manifest)
            | Some (ReadFails n e) \<Rightarrow>
                (case os_Create fs1 destPath of
                   Inl e' \<Rightarrow>
                     apsnd (Cons (Failed relativePath e'))
                       (importFiles flags fs1 rest manifest)
                 | Inr fs2 \<Rightarrow>
                     apsnd (Cons (Failed relativePath e))
                       (importFiles flags
                          (fs2(destPath \<mapsto> File (take n (Zip_Data z)) (Zip_Mode z)))
                          rest manifest))
            | None \<Rightarrow>
                (case os_Create fs1 destPath of
                   Inl e \<Rightarrow>
                     apsnd (Cons (Failed relativePath e))
                       (importFiles flags fs1 rest manifest)
                 | Inr fs2 \<Rightarrow>
                     apsnd (Cons (Extracted destPath))
                       (importFiles flags
                          (fs2(destPath \<mapsto> File (Zip_Data z) (Zip_Mode z)))
                          rest manifest)))))
   \<and> (buildRepoMap (Repos manifest) Map.empty repoName = Some repo
        \<and> importBaseDir flags \<noteq> [] \<longrightarrow>
       resolveDestPath flags fs repo relativePath
         = filepath_Join [importBaseDir flags, repoName, relativePath])"
proof (intro conjI impI)
  assume a: "Zip_Name z = ''files/'' @ repoName @ ''/'' @ relativePath \<and> CHR ''/'' \<notin> set repoName
    \<and> buildRepoMap (Repos manifest) Map.empty repoName = Some repo
    \<and> destPath = resolveDestPath flags fs repo relativePath"
  let ?rm = "buildRepoMap (Repos manifest) Map.empty"
  from a have d: "resolveDestPath flags fs repo relativePath = destPath" by simp
  from a have k: "importEntry flags ?rm fs z = extractTo flags fs z repo relativePath"
    by (simp add: importEntry_known)
  obtain fs1 r1 where m: "os_MkdirAll fs (filepath_Dir destPath) 493 = (fs1, r1)"
    by (cases "os_MkdirAll fs (filepath_Dir destPath) 493")
  show "importFiles flags fs (z # rest) manifest =
      (case os_MkdirAll fs (filepath_Dir destPath) 493 of
         (fs1, Some e) \<Rightarrow>
           apsnd (Cons (Failed relativePath e)) (importFiles flags fs1 rest manifest)
       | (fs1, None) \<Rightarrow>
           (case Zip_Fault z of
              Some (OpenFails e) \<Rightarrow>
                apsnd (Cons (Failed relativePath e)) (importFiles flags fs1 rest manifest)
            | Some (ReadFails n e) \<Rightarrow>
                (case os_Create fs1 destPath of
                   Inl e' \<Rightarrow>
                     apsnd (Cons (Failed relativePath e'))
                       (importFiles flags fs1 rest manifest)
                 | Inr fs2 \<Rightarrow>
                     apsnd (Cons (Failed relativePath e))
                       (importFiles flags
                          (fs2(destPath \<mapsto> File (take n (Zip_Data z)) (Zip_Mode z)))
                          rest manifest))
            | None \<Rightarrow>
                (case os_Create fs1 destPath of
                   Inl e \<Rightarrow>
                     apsnd (Cons (Failed relativePath e))
                       (importFiles flags fs1 rest manifest)
                 | Inr fs2 \<Rightarrow>
                     apsnd (Cons (Extracted destPath))
                       (importFiles flags
                          (fs2(destPath \<mapsto> File (Zip_Data z) (Zip_Mode z)))
                          rest manifest))))"
  proof (cases r1)
    case (Some e)
    then show ?thesis
      unfolding importFiles_Cons k
      by (simp add: extractTo_unfold d m split: prod.split)
  next
    case mk: None
    show ?thesis
    proof (cases "Zip_Fault z")
      case None
      then show ?thesis
        unfolding importFiles_Cons k
        by (simp add: extractTo_unfold d m mk split: prod.split sum.split)
    next
      case (Some f)
      then show ?thesis
        unfolding importFiles_Cons k
        by (cases f) (simp_all add: extractTo_unfold d m mk split: prod.split sum.split)
    qed
  qed
next
  assume b: "buildRepoMap (Repos manifest) Map.empty repoName = Some repo
        \<and> importBaseDir flags \<noteq> []"
  then have "Repo_Name repo = repoName" using buildRepoMap_Some [of "Repos manifest"] by auto
  with b show "resolveDestPath flags fs repo relativePath
         = filepath_Join [importBaseDir flags, repoName, relativePath]"
    by (simp add: resolveDestPath_def)
qed

theorem importFiles_no_traversal_check_witness:
  "Zip_Name traversal_entry = ''files/'' @ ''my-app'' @ ''/'' @ ''../../evil''
   \<and> buildRepoMap (Repos restore_manifest) Map.empty ''my-app'' = Some restore_repo
   \<and> importBaseDir restore_flags \<noteq> []
   \<and> resolveDestPath restore_flags Map.empty restore_repo ''../../evil''
        = filepath_Join [importBaseDir restore_flags, ''my-app'', ''../../evil'']
   \<and> ''/tmp/evil'' = resolveDestPath restore_flags Map.empty restore_repo ''../../evil''
   \<and> snd (importFiles restore_flags Map.empty (traversal_entry # restore_archive)
             restore_manifest)
        = [Extracted ''/tmp/evil'', Extracted ''/tmp/restore/my-app/.env'']
   \<and> fst (importFiles restore_flags Map.empty (traversal_entry # restore_archive)
             restore_manifest) ''/tmp/evil'' = Some (File ''pwned'' 420)"
proof -
  let ?rhs = "(case os_MkdirAll Map.empty (filepath_Dir ''/tmp/evil'') 493 of
         (fs1, Some e) \<Rightarrow>
           apsnd (Cons (Failed ''../../evil'' e))
             (importFiles restore_flags fs1 restore_archive restore_manifest)
       | (fs1, None) \<Rightarrow>
           (case Zip_Fault traversal_entry of
              Some (OpenFails e) \<Rightarrow>
                apsnd (Cons (Failed ''../../evil'' e))
                  (importFiles restore_flags fs1 restore_archive restore_manifest)
            | Some (ReadFails n e) \<Rightarrow>
                (case os_Create fs1 ''/tmp/evil'' of
                   Inl e' \<Rightarrow>
                     apsnd (Cons (Failed ''../../evil'' e'))
                       (importFiles restore_flags fs1 restore_archive restore_manifest)
                 | Inr fs2 \<Rightarrow>
                     apsnd (Cons (Failed ''../../evil'' e))
                       (importFiles restore_flags
                          (fs2(''/tmp/evil'' \<mapsto> File (take n (Zip_Data traversal_entry))
                                                   (Zip_Mode traversal_entry)))
                          restore_archive restore_manifest))
            | None \<Rightarrow>
                (case os_Create fs1 ''/tmp/evil'' of
                   Inl e \<Rightarrow>
                     apsnd (Cons (Failed ''../../evil'' e))
                       (importFiles restore_flags fs1 restore_archive restore_manifest)
                 | Inr fs2 \<Rightarrow>
                     apsnd (Cons (Extracted ''/tmp/evil''))
                       (importFiles restore_flags
                          (fs2(''/tmp/evil'' \<mapsto> File (Zip_Data traversal_entry)
                                                   (Zip_Mode traversal_entry)))
                          restore_archive restore_manifest))))"
  note inst = importFiles_no_traversal_check [where z = traversal_entry
          and repoName = "''my-app''" and relativePath = "''../../evil''"
          and manifest = restore_manifest and repo = restore_repo and flags = restore_flags
          and destPath = "''/tmp/evil''" and fs = Map.empty and rest = restore_archive]
  have n: "Zip_Name traversal_entry = ''files/'' @ ''my-app'' @ ''/'' @ ''../../evil''"
    by (simp add: traversal_entry_def)
  have s: "CHR ''/'' \<notin> set ''my-app''" by simp
  have b: "importBaseDir restore_flags \<noteq> []" by (simp add: restore_flags_def)
  have r: "''/tmp/evil'' = resolveDestPath restore_flags Map.empty restore_repo ''../../evil''"
    by code_simp
  have "buildRepoMap (Repos restore_manifest) Map.empty ''my-app'' = Some restore_repo
        \<and> importBaseDir restore_flags \<noteq> [] \<longrightarrow>
        resolveDestPath restore_flags Map.empty restore_repo ''../../evil''
          = filepath_Join [importBaseDir restore_flags, ''my-app'', ''../../evil'']"
    by (rule inst [THEN conjunct2])
  then have j: "resolveDestPath restore_flags Map.empty restore_repo ''../../evil''
          = filepath_Join [importBaseDir restore_flags, ''my-app'', ''../../evil'']"
    using restore_repoMap b by (elim impE) (intro conjI)
  have "Zip_Name traversal_entry = ''files/'' @ ''my-app'' @ ''/'' @ ''../../evil''
        \<and> CHR ''/'' \<notin> set ''my-app''
        \<and> buildRepoMap (Repos restore_manifest) Map.empty ''my-app'' = Some restore_repo
        \<and> ''/tmp/evil'' = resolveDestPath restore_flags Map.empty restore_repo ''../../evil''
        \<longrightarrow> importFiles restore_flags Map.empty (traversal_entry # restore_archive)
              restore_manifest = ?rhs"
    by (rule inst [THEN conjunct1])
  then have eq: "importFiles restore_flags Map.empty (traversal_entry # restore_archive)
              restore_manifest = ?rhs"
    using n s restore_repoMap r by (elim impE) (intro conjI)
  have out: "snd (importFiles restore_flags Map.empty (traversal_entry # restore_archive)
             restore_manifest)
        = [Extracted ''/tmp/evil'', Extracted ''/tmp/restore/my-app/.env'']"
    unfolding eq by code_simp
  have written: "fst (importFiles restore_flags Map.empty (traversal_entry # restore_archive)
             restore_manifest) ''/tmp/evil'' = Some (File ''pwned'' 420)"
    unfolding eq by code_simp
  from n restore_repoMap b j r out written show ?thesis by (intro conjI)
qed

text \<open>
  C3 as the specification words it (an entry whose path escapes the repository
  destination is rejected and nothing is written outside) does not hold: in a confirmed
  restore under \<open>/tmp/restore\<close> the entry \<open>files/my-app/../../evil\<close> is written to
  \<open>/tmp/evil\<close> and reported as a success.
\<close>

theorem path_traversal_counterexample:
  "Zip_Name traversal_entry = ''files/my-app/../../evil''
   \<and> resolveDestPath restore_flags Map.empty restore_repo ''../../evil'' = ''/tmp/evil''
   \<and> \<not> strings_HasPrefix ''/tmp/evil'' ''/tmp/restore''
   \<and> (case runImport restore_yaml example_machine restore_flags [] Map.empty
              (restore_archive @ [traversal_entry]) of
         Inl e \<Rightarrow> False
       | Inr (restored, messages) \<Rightarrow>
           fileLines messages = [Extracted ''/tmp/restore/my-app/.env'',
                                 Extracted ''/tmp/evil'']
           \<and> failures (fileLines messages) = 0
           \<and> restored ''/tmp/evil'' = Some (File ''pwned'' 420))"
  by code_simp

section \<open>Properties of the file system operations and of filepath.Join\<close>

lemma os_Stat_None: "os_Stat fs p = None \<Longrightarrow> p \<noteq> [] \<Longrightarrow> fs p = None"
  by (simp add: os_Stat_def split: if_splits)

lemma os_Mkdir_frame:
  assumes "os_Mkdir fs p perm = Inr fs'" and "fs q = Some n"
  shows "fs' q = Some n"
proof -
  from assms(1) have ne: "p \<noteq> []" and st: "os_Stat fs p = None"
    and fs': "fs' = fs(p \<mapsto> Dir perm)"
    by (auto simp: os_Mkdir_def split: if_splits option.splits node.splits)
  from os_Stat_None [OF st ne] assms(2) have "p \<noteq> q" by auto
  with fs' assms(2) show ?thesis by simp
qed

lemma os_MkdirAll_frame:
  "fs q = Some n \<Longrightarrow> fst (os_MkdirAll fs p perm) q = Some n"
proof (induction fs p perm rule: os_MkdirAll.induct)
  case (1 fs path perm)
  show ?case
  proof (cases "os_Stat fs path")
    case (Some nd)
    then show ?thesis using "1.prems"
      by (cases nd) (simp_all add: os_MkdirAll.simps [of fs path perm])
  next
    case None
    define r where "r = (if parentOf path \<noteq> [] then os_MkdirAll fs (parentOf path) perm
                 else (fs, None))"
    obtain fs1 e1 where r: "r = (fs1, e1)" by (cases r)
    have fs1: "fs1 q = Some n"
    proof (cases "parentOf path \<noteq> []")
      case True
      with "1.IH" [OF None True "1.prems"] r show ?thesis by (simp add: r_def)
    next
      case False
      with r "1.prems" show ?thesis by (simp add: r_def)
    qed
    have unfold: "os_MkdirAll fs path perm =
        (case e1 of Some e \<Rightarrow> (fs1, Some e)
         | None \<Rightarrow> (case os_Mkdir fs1 path perm of
                  Inr fs2 \<Rightarrow> (fs2, None)
                | Inl e \<Rightarrow>
                    (case os_Stat fs1 path of
                       Some (Dir _) \<Rightarrow> (fs1, None)
                     | _ \<Rightarrow> (fs1, Some e))))"
      using None r unfolding r_def
      by (subst os_MkdirAll.simps) (simp split: option.split)
    show ?thesis
    proof (cases e1)
      case (Some e)
      then show ?thesis using fs1 by (simp add: unfold)
    next
      case e1: None
      show ?thesis
      proof (cases "os_Mkdir fs1 path perm")
        case (Inr fs2)
        from os_Mkdir_frame [OF Inr fs1] show ?thesis by (simp add: unfold e1 Inr)
      next
        case (Inl e)
        then show ?thesis using fs1
          by (simp add: unfold e1 split: option.split node.split)
      qed
    qed
  qed
qed

lemma os_WriteFile_frame:
  "os_WriteFile fs p content perm = Inr fs' \<Longrightarrow> q \<noteq> p \<Longrightarrow> fs' q = fs q"
  by (auto simp: os_WriteFile_def split: option.splits node.splits if_splits)

lemma os_Create_frame:
  "os_Create fs p = Inr fs' \<Longrightarrow> q \<noteq> p \<Longrightarrow> fs' q = fs q"
  by (auto simp: os_Create_def split: option.splits node.splits if_splits)

lemma os_Create_Stat:
  "os_Create fs p = Inr fs' \<Longrightarrow> q \<noteq> p \<Longrightarrow> os_Stat fs' q = os_Stat fs q"
  by (simp add: os_Stat_def os_Create_frame)

lemma splitSep_append_sep:
  "splitSep (a @ CHR ''/'' # b) cur = splitSep a cur @ splitSep b []"
  by (induction a arbitrary: cur) simp_all

lemma splitSep_no_sep:
  "CHR ''/'' \<notin> set e \<Longrightarrow> splitSep e cur = [rev cur @ e]"
  by (induction e arbitrary: cur) auto

lemma cleanElems_append:
  "cleanElems rooted (xs @ ys) out = cleanElems rooted ys (rev (cleanElems rooted xs out))"
  by (induction rooted xs out rule: cleanElems.induct) (auto split: list.split)

lemma cleanElems_last:
  assumes "e \<noteq> []" "e \<noteq> ''.''" "e \<noteq> ''..''"
  shows "cleanElems rooted (xs @ [e]) [] = cleanElems rooted xs [] @ [e]"
  unfolding cleanElems_append using assms by simp

lemma joinSep_snoc: "\<exists>pre. joinSep (xs @ [e]) = pre @ e"
proof (induction xs rule: joinSep.induct)
  case 1
  then show ?case by simp
next
  case (2 x)
  then show ?case by simp
next
  case (3 x y zs)
  then obtain pre where "joinSep ((y # zs) @ [e]) = pre @ e" by blast
  then have "joinSep ((x # y # zs) @ [e]) = (x @ CHR ''/'' # pre) @ e" by simp
  then show ?case by blast
qed

lemma Clean_last:
  assumes "splitSep path [] = xs @ [e]" and "e \<noteq> []" "e \<noteq> ''.''" "e \<noteq> ''..''"
  shows "\<exists>pre. filepath_Clean path = pre @ e"
proof -
  have ne: "path \<noteq> []" using assms(1,2) by (cases path) auto
  let ?rooted = "hd path = CHR ''/''"
  from joinSep_snoc obtain pre where
    pre: "joinSep (cleanElems ?rooted xs [] @ [e]) = pre @ e" by blast
  have body: "joinSep (cleanElems ?rooted (splitSep path []) []) = pre @ e"
    unfolding assms(1) cleanElems_last [OF assms(2-4)] by (rule pre)
  show ?thesis
  proof (cases ?rooted)
    case True
    then have "filepath_Clean path = (CHR ''/'' # pre) @ e"
      using ne body by (simp add: filepath_Clean_def)
    then show ?thesis by blast
  next
    case False
    then have "filepath_Clean path = pre @ e"
      using ne body assms(2) by (simp add: filepath_Clean_def)
    then show ?thesis by blast
  qed
qed

lemma Join_last:
  assumes "CHR ''/'' \<notin> set e" and "e \<noteq> []" "e \<noteq> ''.''" "e \<noteq> ''..''"
  shows "\<exists>pre. filepath_Join [d, e] = pre @ e"
proof (cases "d = []")
  case True
  have "splitSep e [] = [] @ [e]" using assms(1) by (simp add: splitSep_no_sep)
  from Clean_last [OF this assms(2-4)] show ?thesis
    using True assms(2) by (simp add: filepath_Join.simps)
next
  case False
  have "splitSep (d @ CHR ''/'' # e) [] = splitSep d [] @ [e]"
    using assms(1) by (simp add: splitSep_append_sep splitSep_no_sep)
  from Clean_last [OF this assms(2-4)] show ?thesis
    using False by (simp add: filepath_Join.simps)
qed

lemma PatternsFilePath_last:
  assumes "PatternsFilePath m = Inr patternsPath"
  shows "\<exists>pre. patternsPath = pre @ ''patterns.yaml''"
proof -
  from assms obtain dir where "patternsPath = filepath_Join [dir, ''patterns.yaml'']"
    by (auto simp: PatternsFilePath_def split: sum.splits)
  moreover have "\<exists>pre. filepath_Join [dir, ''patterns.yaml''] = pre @ ''patterns.yaml''"
    by (rule Join_last) simp_all
  ultimately show ?thesis by simp
qed

lemma importPatterns_frame:
  assumes "fs q = Some (File content mode)"
    and "\<And>pre. q \<noteq> pre @ ''patterns.yaml''"
  shows "fst (importPatterns m fs archive) q = Some (File content mode)"
proof (induction archive)
  case Nil
  then show ?case using assms(1) by simp
next
  case (Cons z rest)
  show ?case
  proof (cases "Zip_Name z = ''patterns.yaml''")
    case False
    then show ?thesis using Cons.IH by simp
  next
    case True
    show ?thesis
    proof (cases "zip_Open z")
      case (Inl e)
      then show ?thesis using True assms(1) by simp
    next
      case opened: (Inr rc)
      show ?thesis
      proof (cases "io_ReadAll rc")
        case (Inl e)
        then show ?thesis using True opened assms(1) by simp
      next
        case bytes: (Inr data)
        show ?thesis
        proof (cases "DefaultConfigDir m")
          case (Inl e)
          then show ?thesis using True opened bytes assms(1) by simp
        next
          case (Inr configDir)
          obtain fs1 e1 where mk: "os_MkdirAll fs configDir 493 = (fs1, e1)"
            by (cases "os_MkdirAll fs configDir 493")
          have fs1: "fs1 q = Some (File content mode)"
            using os_MkdirAll_frame [where fs = fs and q = q and p = configDir and perm = 493,
                OF assms(1)] mk by simp
          show ?thesis
          proof (cases e1)
            case (Some e)
            then show ?thesis using True opened bytes Inr mk fs1 by simp
          next
            case None
            show ?thesis
            proof (cases "PatternsFilePath m")
              case (Inl e)
              then show ?thesis using True opened bytes Inr mk None fs1 by simp
            next
              case pp: (Inr patternsPath)
              from PatternsFilePath_last [OF pp] assms(2) have neq: "q \<noteq> patternsPath"
                by blast
              show ?thesis
              proof (cases "os_WriteFile fs1 patternsPath data 420")
                case (Inl e)
                then show ?thesis using True opened bytes Inr mk None pp fs1 by simp
              next
                case w: (Inr fs2)
                from os_WriteFile_frame [OF w neq] fs1 show ?thesis
                  using True opened bytes Inr mk None pp w by simp
              qed
            qed
          qed
        qed
      qed
    qed
  qed
qed

section \<open>Export followed by import\<close>

lemma scanOne_secret_file:
  assumes "\<not> isInDepsDir path"
    and "os_Stat fs (filepath_Join [absPath, path]) = Some (File content mode)"
    and "isSecretFile path (categorizeFile path)"
  shows "scanOne s fs absPath path =
           Some \<lparr>Path = path, Size = of_nat (length content), IsSecret = True,
                 Category = categorizeFile path\<rparr>"
  using assms by (simp add: scanOne_def)

lemma Scan_git:
  assumes "filepath_Abs m rootPath = Inr absPath" and "gitRevParse m absPath"
    and "gitStatusIgnored m absPath = Some output"
  shows "Scan s m fs rootPath
           = Inr (scanPaths s fs absPath (ignoredLines output) (emptyResult absPath))"
  using assms by (simp add: Scan_def isGitRepo_def getGitIgnoredFiles_def emptyResult_def)

lemma collect_my_app:
  assumes abs: "filepath_Abs m repoPath = Inr repoPath"
    and base: "filepath_Base repoPath = ''my-app''"
    and git: "gitRevParse m repoPath" "gitStatusIgnored m repoPath = Some output"
    and ignored: "ignoredLines output = [''.env'', ''config/.env.local'']"
    and f1: "os_Stat fs (filepath_Join [repoPath, ''.env'']) = Some (File c1 m1)"
    and f2: "os_Stat fs (filepath_Join [repoPath, ''config/.env.local'']) = Some (File c2 m2)"
  shows "collectSingleRepo s m fs repoPath =
           Inr [\<lparr>Repo_Name = ''my-app'', Repo_Path = repoPath,
                 Repo_Files = [''.env'', ''config/.env.local'']\<rparr>]"
proof -
  define result where
    "result = scanPaths s fs repoPath [''.env'', ''config/.env.local''] (emptyResult repoPath)"
  have scan: "Scan s m fs repoPath = Inr result"
    using Scan_git [OF abs git] ignored by (simp only: result_def)
  have d1: "\<not> isInDepsDir ''.env''" and d2: "\<not> isInDepsDir ''config/.env.local''"
    by code_simp+
  have s1: "isSecretFile ''.env'' (categorizeFile ''.env'')"
    and s2: "isSecretFile ''config/.env.local'' (categorizeFile ''config/.env.local'')"
    by code_simp+
  have "IgnoredFiles result =
          [\<lparr>Path = ''.env'', Size = of_nat (length c1), IsSecret = True,
             Category = categorizeFile ''.env''\<rparr>,
           \<lparr>Path = ''config/.env.local'', Size = of_nat (length c2), IsSecret = True,
             Category = categorizeFile ''config/.env.local''\<rparr>]"
    unfolding result_def scanPaths_files
    by (simp add: List.map_filter_simps emptyResult_def
          scanOne_secret_file [OF d1 f1 s1] scanOne_secret_file [OF d2 f2 s2])
  then have "map Path (filter IsSecret (IgnoredFiles result)) = [''.env'', ''config/.env.local'']"
    by simp
  with collectSingleRepo_Scan [OF scan] base show ?thesis by simp
qed

lemma addFileToZip_file:
  "os_Stat fs sourcePath = Some (File content mode) \<Longrightarrow>
     addFileToZip fs zipWriter sourcePath zipPath =
       (zipWriter @ [\<lparr>Zip_Name = zipPath, Zip_Data = content, Zip_Mode = mode,
                          Zip_Fault = None\<rparr>], None)"
  by (simp add: addFileToZip_def)

lemma createExportZip_my_app:
  assumes out: "os_Create fs outputPath = Inr fs1"
    and marshal: "yaml_Marshal y \<lparr>Version = 1, CreatedAt = Now m, Machine = Hostname m,
                     Repos = [\<lparr>Repo_Name = ''my-app'', Repo_Path = repoPath,
                               Repo_Files = [''.env'', ''config/.env.local'']\<rparr>]\<rparr> = Inr data"
    and f1: "os_Stat fs1 (filepath_Join [repoPath, ''.env'']) = Some (File c1 m1)"
    and f2: "os_Stat fs1 (filepath_Join [repoPath, ''config/.env.local'']) = Some (File c2 m2)"
  shows "\<exists>patterns. set (map Zip_Name patterns) \<subseteq> {''patterns.yaml''}
          \<and> createExportZip y m fs outputPath
               [\<lparr>Repo_Name = ''my-app'', Repo_Path = repoPath,
                  Repo_Files = [''.env'', ''config/.env.local'']\<rparr>]
             = Inr (\<lparr>Zip_Name = ''manifest.yaml'', Zip_Data = data, Zip_Mode = 0, Zip_Fault = None\<rparr> # patterns
                      @ [\<lparr>Zip_Name = ''files/my-app/.env'', Zip_Data = c1, Zip_Mode = m1, Zip_Fault = None\<rparr>,
                         \<lparr>Zip_Name = ''files/my-app/config/.env.local'', Zip_Data = c2,
                            Zip_Mode = m2, Zip_Fault = None\<rparr>],
                    [])"
proof -
  let ?repo = "\<lparr>Repo_Name = ''my-app'', Repo_Path = repoPath,
                 Repo_Files = [''.env'', ''config/.env.local'']\<rparr>"
  let ?pp = "case PatternsFilePath m of Inl e \<Rightarrow> [] | Inr p \<Rightarrow> p"
  let ?man = "\<lparr>Zip_Name = ''manifest.yaml'', Zip_Data = data, Zip_Mode = 0, Zip_Fault = None\<rparr>"
  define patterns where "patterns =
     (case os_ReadFile fs1 ?pp of
        Inl e \<Rightarrow> []
      | Inr patternsData \<Rightarrow>
          [\<lparr>Zip_Name = ''patterns.yaml'', Zip_Data = patternsData, Zip_Mode = 0, Zip_Fault = None\<rparr>])"
  have names: "set (map Zip_Name patterns) \<subseteq> {''patterns.yaml''}"
    by (cases "os_ReadFile fs1 ?pp") (simp_all add: patterns_def)
  have z1: "filepath_Join [''files'', ''my-app'', ''.env''] = ''files/my-app/.env''"
    and z2: "filepath_Join [''files'', ''my-app'', ''config/.env.local'']
               = ''files/my-app/config/.env.local''"
    by code_simp+
  have w2: "(case os_ReadFile fs1 ?pp of
               Inl e \<Rightarrow> [?man]
             | Inr patternsData \<Rightarrow>
                 [?man] @ [\<lparr>Zip_Name = ''patterns.yaml'', Zip_Data = patternsData,
                             Zip_Mode = 0, Zip_Fault = None\<rparr>])
            = ?man # patterns"
    by (simp add: patterns_def split: sum.split)
  have files: "exportRepos fs1 [?repo] (?man # patterns, [])
      = (?man # patterns
           @ [\<lparr>Zip_Name = ''files/my-app/.env'', Zip_Data = c1, Zip_Mode = m1, Zip_Fault = None\<rparr>,
              \<lparr>Zip_Name = ''files/my-app/config/.env.local'', Zip_Data = c2, Zip_Mode = m2, Zip_Fault = None\<rparr>],
         [])"
    by (simp add: Let_def z1 z2 addFileToZip_file [OF f1] addFileToZip_file [OF f2])
  have "createExportZip y m fs outputPath [?repo]
          = Inr (exportRepos fs1 [?repo] (?man # patterns, []))"
    unfolding createExportZip_def out marshal Let_def sum.case w2 ..
  with names files show ?thesis by auto
qed

lemma os_MkdirAll_Dir:
  "os_Stat fs p = Some (Dir k) \<Longrightarrow> os_MkdirAll fs p perm = (fs, None)"
  by (subst os_MkdirAll.simps) simp

lemma os_MkdirAll_new:
  assumes "os_Stat fs p = None"
    and "(if parentOf p \<noteq> [] then os_MkdirAll fs (parentOf p) perm else (fs, None)) = (fs1, None)"
    and "os_Mkdir fs1 p perm = Inr fs2"
  shows "os_MkdirAll fs p perm = (fs2, None)"
  by (subst os_MkdirAll.simps) (simp only: assms option.case prod.case sum.case)

lemma os_Mkdir_new:
  assumes "p \<noteq> []" and "os_Stat fs p = None" and "os_Stat fs (filepath_Dir p) = Some (Dir k)"
  shows "os_Mkdir fs p perm = Inr (fs(p \<mapsto> Dir perm))"
  using assms by (simp add: os_Mkdir_def)

lemma os_Create_new:
  assumes "p \<noteq> []" and "os_Stat fs p = None" and "os_Stat fs (filepath_Dir p) = Some (Dir k)"
  shows "os_Create fs p = Inr (fs(p \<mapsto> File [] 438))"
  using assms by (simp add: os_Create_def)

lemma HasPrefix_shorter:
  assumes "strings_HasPrefix p (a @ b)"
  shows "strings_HasPrefix p a"
proof -
  from assms have h: "take (length (a @ b)) p = a @ b" by (simp only: strings_HasPrefix_def)
  have "take (length a) p = take (length a) (take (length (a @ b)) p)" by (simp add: min_def)
  also have "\<dots> = take (length a) (a @ b)" by (simp only: h)
  also have "\<dots> = a" by simp
  finally show ?thesis by (simp only: strings_HasPrefix_def)
qed

text \<open>Creating \<open>/tmp/restore/my-app\<close> where \<open>/tmp/restore\<close> is an empty directory, or
  does not exist and can be created.\<close>

lemma mkdir_restore_my_app:
  assumes empty: "\<forall>p. strings_HasPrefix p ''/tmp/restore/'' \<longrightarrow> fs p = None"
    and dest: "(\<exists>k. fs ''/tmp/restore'' = Some (Dir k))
               \<or> (fs ''/tmp/restore'' = None
                    \<and> (\<forall>bytes mode. fs ''/tmp'' \<noteq> Some (File bytes mode)))"
  shows "\<exists>fs1. os_MkdirAll fs ''/tmp/restore/my-app'' 493 = (fs1, None)
           \<and> fs1 ''/tmp/restore/my-app'' = Some (Dir 493)
           \<and> (\<forall>p. strings_HasPrefix p ''/tmp/restore/my-app/'' \<longrightarrow> fs1 p = None)"
proof -
  have e2: "fs ''/tmp/restore/my-app'' = None"
    using empty by (simp add: strings_HasPrefix_def)
  have under: "fs p = None" if "strings_HasPrefix p ''/tmp/restore/my-app/''" for p
  proof -
    from that have "strings_HasPrefix p (''/tmp/restore/'' @ ''my-app/'')" by simp
    then have "strings_HasPrefix p ''/tmp/restore/''" by (rule HasPrefix_shorter)
    with empty show ?thesis by blast
  qed
  have neq: "p \<noteq> ''/tmp'' \<and> p \<noteq> ''/tmp/restore'' \<and> p \<noteq> ''/tmp/restore/my-app''"
    if "strings_HasPrefix p ''/tmp/restore/my-app/''" for p
    using that by (auto simp: strings_HasPrefix_def)
  have par1: "parentOf ''/tmp'' = []" and par2: "parentOf ''/tmp/restore'' = ''/tmp''"
    and par3: "parentOf ''/tmp/restore/my-app'' = ''/tmp/restore''"
    by code_simp+
  have dir1: "filepath_Dir ''/tmp'' = ''/''" and dir2: "filepath_Dir ''/tmp/restore'' = ''/tmp''"
    and dir3: "filepath_Dir ''/tmp/restore/my-app'' = ''/tmp/restore''"
    by code_simp+
  obtain fsB kB where B: "os_MkdirAll fs ''/tmp/restore'' 493 = (fsB, None)"
    and B1: "fsB ''/tmp/restore'' = Some (Dir kB)"
    and B2: "\<forall>p. p \<noteq> ''/tmp'' \<and> p \<noteq> ''/tmp/restore'' \<longrightarrow> fsB p = fs p"
    using dest
  proof (elim disjE exE conjE)
    fix k assume k: "fs ''/tmp/restore'' = Some (Dir k)"
    then have "os_MkdirAll fs ''/tmp/restore'' 493 = (fs, None)"
      by (intro os_MkdirAll_Dir [where k = k]) (simp add: os_Stat_def)
    then show ?thesis using that [of fs k] k by simp
  next
    assume e1: "fs ''/tmp/restore'' = None"
      and tmp: "\<forall>bytes mode. fs ''/tmp'' \<noteq> Some (File bytes mode)"
    obtain fsA kA where A: "os_MkdirAll fs ''/tmp'' 493 = (fsA, None)"
      and A1: "fsA ''/tmp'' = Some (Dir kA)" and A2: "\<forall>p. p \<noteq> ''/tmp'' \<longrightarrow> fsA p = fs p"
    proof (cases "fs ''/tmp''")
      case None
      have "os_Mkdir fs ''/tmp'' 493 = Inr (fs(''/tmp'' \<mapsto> Dir 493))"
        by (rule os_Mkdir_new [where k = 493]) (simp_all add: os_Stat_def None dir1)
      then have "os_MkdirAll fs ''/tmp'' 493 = (fs(''/tmp'' \<mapsto> Dir 493), None)"
        by (intro os_MkdirAll_new [where ?fs1.0 = fs]) (simp_all add: os_Stat_def None par1)
      then show ?thesis using that [of "fs(''/tmp'' \<mapsto> Dir 493)" 493] by simp
    next
      case (Some nd)
      with tmp obtain k where k: "fs ''/tmp'' = Some (Dir k)" by (cases nd) auto
      then have "os_MkdirAll fs ''/tmp'' 493 = (fs, None)"
        by (intro os_MkdirAll_Dir [where k = k]) (simp add: os_Stat_def)
      then show ?thesis using that [of fs k] k by simp
    qed
    let ?fsB = "fsA(''/tmp/restore'' \<mapsto> Dir 493)"
    have "os_Mkdir fsA ''/tmp/restore'' 493 = Inr ?fsB"
      by (rule os_Mkdir_new [where k = kA]) (simp_all add: os_Stat_def dir2 A1 A2 e1)
    then have "os_MkdirAll fs ''/tmp/restore'' 493 = (?fsB, None)"
      by (intro os_MkdirAll_new [where ?fs1.0 = fsA]) (simp_all add: os_Stat_def e1 par2 A)
    then show ?thesis using that [of ?fsB 493] A2 by simp
  qed
  let ?fsC = "fsB(''/tmp/restore/my-app'' \<mapsto> Dir 493)"
  have "os_Mkdir fsB ''/tmp/restore/my-app'' 493 = Inr ?fsC"
    by (rule os_Mkdir_new [where k = kB]) (simp_all add: os_Stat_def dir3 B1 B2 e2)
  then have C: "os_MkdirAll fs ''/tmp/restore/my-app'' 493 = (?fsC, None)"
    by (intro os_MkdirAll_new [where ?fs1.0 = fsB]) (simp_all add: os_Stat_def e2 par3 B)
  have "\<forall>p. strings_HasPrefix p ''/tmp/restore/my-app/'' \<longrightarrow> ?fsC p = None"
    using neq under B2 by simp
  with C show ?thesis by simp
qed

lemma importEntries_unprocessed:
  "\<forall>z \<in> set files. \<not> processed repoMap z \<Longrightarrow>
     importEntries flags repoMap files acc = acc"
proof (induction files arbitrary: acc)
  case Nil
  then show ?case by simp
next
  case (Cons z rest)
  obtain fs printed where acc: "acc = (fs, printed)" by (cases acc)
  from Cons.prems have "importEntry flags repoMap fs z = (fs, [])"
    by (simp add: importEntry_skip)
  then show ?case unfolding acc importEntries_Cons using Cons by simp
qed

lemma not_processed_other:
  "\<not> strings_HasPrefix (Zip_Name z) ''files/'' \<Longrightarrow> \<not> processed repoMap z"
  by (simp add: processed_def entryTarget_no_prefix)

lemma restore_two_entries:
  assumes base: "importBaseDir flags = ''/tmp/restore''"
    and empty: "\<forall>p. strings_HasPrefix p ''/tmp/restore/'' \<longrightarrow> fs p = None"
    and dest: "(\<exists>k. fs ''/tmp/restore'' = Some (Dir k))
               \<or> (fs ''/tmp/restore'' = None
                    \<and> (\<forall>bytes mode. fs ''/tmp'' \<noteq> Some (File bytes mode)))"
    and rm: "repoMap ''my-app'' = Some repo" and name: "Repo_Name repo = ''my-app''"
  shows "\<exists>fs'. importEntries flags repoMap
                  [\<lparr>Zip_Name = ''files/my-app/.env'', Zip_Data = c1, Zip_Mode = m1,
                     Zip_Fault = None\<rparr>,
                   \<lparr>Zip_Name = ''files/my-app/config/.env.local'', Zip_Data = c2,
                      Zip_Mode = m2, Zip_Fault = None\<rparr>] (fs, [])
                = (fs', [Extracted ''/tmp/restore/my-app/.env'',
                         Extracted ''/tmp/restore/my-app/config/.env.local''])
           \<and> fs' ''/tmp/restore/my-app/.env'' = Some (File c1 m1)
           \<and> fs' ''/tmp/restore/my-app/config/.env.local'' = Some (File c2 m2)"
proof -
  let ?e1 = "\<lparr>Zip_Name = ''files/my-app/.env'', Zip_Data = c1, Zip_Mode = m1,
               Zip_Fault = None\<rparr>"
  let ?e2 = "\<lparr>Zip_Name = ''files/my-app/config/.env.local'', Zip_Data = c2, Zip_Mode = m2,
               Zip_Fault = None\<rparr>"
  let ?p1 = "''/tmp/restore/my-app/.env''"
  let ?p2 = "''/tmp/restore/my-app/config/.env.local''"
  let ?d1 = "''/tmp/restore/my-app''"
  let ?d2 = "''/tmp/restore/my-app/config''"
  from mkdir_restore_my_app [OF empty dest] obtain fs1 where
    mk1: "os_MkdirAll fs ?d1 493 = (fs1, None)"
    and d1: "fs1 ?d1 = Some (Dir 493)"
    and under: "\<forall>p. strings_HasPrefix p ''/tmp/restore/my-app/'' \<longrightarrow> fs1 p = None"
    by blast
  have n1: "fs1 ?p1 = None" and n2: "fs1 ?p2 = None" and nd2: "fs1 ?d2 = None"
    using under by (simp_all add: strings_HasPrefix_def)
  have j1: "filepath_Join [''/tmp/restore'', ''my-app'', ''.env''] = ?p1"
    and j2: "filepath_Join [''/tmp/restore'', ''my-app'', ''config/.env.local''] = ?p2"
    by code_simp+
  have dir1: "filepath_Dir ?p1 = ?d1" and dir2: "filepath_Dir ?p2 = ?d2"
    and dird2: "filepath_Dir ?d2 = ?d1" and pard2: "parentOf ?d2 = ?d1"
    by code_simp+
  have dest1: "resolveDestPath flags fs' repo ''.env'' = ?p1"
    and dest2: "resolveDestPath flags fs' repo ''config/.env.local'' = ?p2" for fs'
    by (simp_all add: resolveDestPath_def base name j1 j2)
  \<comment> \<open>first entry\<close>
  let ?fs2 = "fs1(?p1 \<mapsto> File c1 m1)"
  have c1: "os_Create fs1 ?p1 = Inr (fs1(?p1 \<mapsto> File [] 438))"
    by (rule os_Create_new [where k = 493]) (simp_all add: os_Stat_def n1 dir1 d1)
  have x1: "extractTo flags fs ?e1 repo ''.env'' = (?fs2, [Extracted ?p1])"
    by (simp add: extractTo_unfold Let_def dest1 dir1 mk1 c1)
  have "Zip_Name ?e1 = ''files/'' @ ''my-app'' @ ''/'' @ ''.env''" by simp
  then have i1: "importEntry flags repoMap fs ?e1 = (?fs2, [Extracted ?p1])"
    using importEntry_known [of ?e1 "''my-app''" "''.env''" repoMap repo flags fs] rm x1
    by simp
  \<comment> \<open>second entry\<close>
  let ?fs3 = "?fs2(?d2 \<mapsto> Dir 493)"
  let ?fs4 = "?fs3(?p2 \<mapsto> File c2 m2)"
  have "os_MkdirAll ?fs2 ?d1 493 = (?fs2, None)"
    by (rule os_MkdirAll_Dir [where k = 493]) (simp add: os_Stat_def d1)
  moreover have "os_Mkdir ?fs2 ?d2 493 = Inr ?fs3"
    by (rule os_Mkdir_new [where k = 493]) (simp_all add: os_Stat_def nd2 dird2 d1)
  ultimately have mk2: "os_MkdirAll ?fs2 ?d2 493 = (?fs3, None)"
    by (intro os_MkdirAll_new [where ?fs1.0 = ?fs2]) (simp_all add: os_Stat_def nd2 pard2)
  have c2: "os_Create ?fs3 ?p2 = Inr (?fs3(?p2 \<mapsto> File [] 438))"
    by (rule os_Create_new [where k = 493]) (simp_all add: os_Stat_def n2 dir2)
  have x2: "extractTo flags ?fs2 ?e2 repo ''config/.env.local'' = (?fs4, [Extracted ?p2])"
    by (simp add: extractTo_unfold Let_def dest2 dir2 mk2 c2)
  have "Zip_Name ?e2 = ''files/'' @ ''my-app'' @ ''/'' @ ''config/.env.local''" by simp
  then have i2: "importEntry flags repoMap ?fs2 ?e2 = (?fs4, [Extracted ?p2])"
    using importEntry_known [of ?e2 "''my-app''" "''config/.env.local''" repoMap repo flags ?fs2]
      rm x2 by simp
  have "importEntries flags repoMap [?e1, ?e2] (fs, []) = (?fs4, [Extracted ?p1, Extracted ?p2])"
    by (simp only: importEntries_Cons i1 i2 prod.case importEntries.simps(1) append_Nil
          append_Cons)
  moreover have "?fs4 ?p1 = Some (File c1 m1)" by simp
  moreover have "?fs4 ?p2 = Some (File c2 m2)" by simp
  ultimately show ?thesis by blast
qed

text \<open>
  C1 (export/import round trip). Take a repository whose absolute path (what
  \<open>filepath.Abs\<close> makes of the scan path, and leaves as it is) has the base name
  \<open>my-app\<close>, for which git reports exactly the ignored paths \<open>.env\<close> and
  \<open>config/.env.local\<close>, both regular files; an output path that can be created and is
  neither of the two files; a YAML library that reads the manifest back as it wrote it.
  Then \<open>runExport\<close> builds an archive without a warning. Take an importing machine on
  which nothing exists under \<open>/tmp/restore/\<close>, and \<open>/tmp/restore\<close> itself is a directory
  or does not exist (and then \<open>/tmp\<close> is no regular file). A restore of that archive with
  base directory \<open>/tmp/restore\<close> that goes ahead (no dry run; \<open>--yes\<close>, or \<open>y\<close>/\<open>yes\<close>
  answered) lists the two files in its preview, none to be overwritten, prints two
  successes and no failure, and leaves \<open>/tmp/restore/my-app/.env\<close> and
  \<open>/tmp/restore/my-app/config/.env.local\<close> with the bytes (and permission bits) of the
  exported files.
\<close>

theorem export_import_round_trip:
  assumes scan: "filepath_Abs src_m scanPath = Inr repoPath"
    and abs: "filepath_Abs src_m repoPath = Inr repoPath"
    and base: "filepath_Base repoPath = ''my-app''"
    and git: "gitRevParse src_m repoPath" "gitStatusIgnored src_m repoPath = Some statusLines"
    and ignored: "ignoredLines statusLines = [''.env'', ''config/.env.local'']"
    and f1: "os_Stat src_fs (filepath_Join [repoPath, ''.env'']) = Some (File env_bytes env_mode)"
    and f2: "os_Stat src_fs (filepath_Join [repoPath, ''config/.env.local''])
               = Some (File local_bytes local_mode)"
    and out: "os_Create src_fs outputPath = Inr created"
      "outputPath \<noteq> filepath_Join [repoPath, ''.env'']"
      "outputPath \<noteq> filepath_Join [repoPath, ''config/.env.local'']"
    and marshal:
      "yaml_Marshal y \<lparr>Version = 1, CreatedAt = Now src_m, Machine = Hostname src_m,
          Repos = [\<lparr>Repo_Name = ''my-app'', Repo_Path = repoPath,
                    Repo_Files = [''.env'', ''config/.env.local'']\<rparr>]\<rparr> = Inr data"
    and unmarshal:
      "yaml_Unmarshal y data = Inr \<lparr>Version = 1, CreatedAt = Now src_m, Machine = Hostname src_m,
          Repos = [\<lparr>Repo_Name = ''my-app'', Repo_Path = repoPath,
                    Repo_Files = [''.env'', ''config/.env.local'']\<rparr>]\<rparr>"
    and flags: "importBaseDir flags = ''/tmp/restore''" "\<not> importDryRun flags"
      "confirmed flags stdin"
    and empty: "\<forall>p. strings_HasPrefix p ''/tmp/restore/'' \<longrightarrow> dst_fs p = None"
    and dest: "(\<exists>k. dst_fs ''/tmp/restore'' = Some (Dir k))
               \<or> (dst_fs ''/tmp/restore'' = None
                    \<and> (\<forall>bytes mode. dst_fs ''/tmp'' \<noteq> Some (File bytes mode)))"
  shows "\<exists>archive restored messages.
           runExport y src_m \<lparr>exportRecursive = False, exportIncludeDeps = deps\<rparr> roots
               src_fs outputPath scanPath = Inr (Some (archive, []))
           \<and> runImport y dst_m flags stdin dst_fs archive = Inr (restored, messages)
           \<and> listedFiles messages = [(''.env'', False), (''config/.env.local'', False)]
           \<and> fileLines messages = [Extracted ''/tmp/restore/my-app/.env'',
                                    Extracted ''/tmp/restore/my-app/config/.env.local'']
           \<and> successes (fileLines messages) = 2
           \<and> failures (fileLines messages) = 0
           \<and> restored ''/tmp/restore/my-app/.env'' = Some (File env_bytes env_mode)
           \<and> restored ''/tmp/restore/my-app/config/.env.local''
               = Some (File local_bytes local_mode)"
proof -
  let ?repo = "\<lparr>Repo_Name = ''my-app'', Repo_Path = repoPath,
                 Repo_Files = [''.env'', ''config/.env.local'']\<rparr>"
  let ?manifest = "\<lparr>Version = 1, CreatedAt = Now src_m, Machine = Hostname src_m,
                     Repos = [?repo]\<rparr>"
  let ?man = "\<lparr>Zip_Name = ''manifest.yaml'', Zip_Data = data, Zip_Mode = 0,
                Zip_Fault = None\<rparr>"
  let ?e1 = "\<lparr>Zip_Name = ''files/my-app/.env'', Zip_Data = env_bytes, Zip_Mode = env_mode,
               Zip_Fault = None\<rparr>"
  let ?e2 = "\<lparr>Zip_Name = ''files/my-app/config/.env.local'', Zip_Data = local_bytes,
               Zip_Mode = local_mode, Zip_Fault = None\<rparr>"
  let ?p1 = "''/tmp/restore/my-app/.env''"
  let ?p2 = "''/tmp/restore/my-app/config/.env.local''"
  let ?printed = "[Extracted ?p1, Extracted ?p2]"
  \<comment> \<open>export\<close>
  have collect: "collectSingleRepo (NewScanner\<lparr>ExcludeDeps := \<not> deps\<rparr>) src_m src_fs repoPath
                   = Inr [?repo]"
    by (rule collect_my_app [OF abs base git ignored f1 f2])
  have f1': "os_Stat created (filepath_Join [repoPath, ''.env'']) = Some (File env_bytes env_mode)"
    using os_Create_Stat [OF out(1)] out(2) f1 by metis
  have f2': "os_Stat created (filepath_Join [repoPath, ''config/.env.local''])
               = Some (File local_bytes local_mode)"
    using os_Create_Stat [OF out(1)] out(3) f2 by metis
  from createExportZip_my_app [OF out(1) marshal f1' f2'] obtain patterns where
    names: "set (map Zip_Name patterns) \<subseteq> {''patterns.yaml''}"
    and zip: "createExportZip y src_m src_fs outputPath [?repo]
                = Inr (?man # patterns @ [?e1, ?e2], [])"
    by blast
  let ?archive = "?man # patterns @ [?e1, ?e2]"
  have export: "runExport y src_m \<lparr>exportRecursive = False, exportIncludeDeps = deps\<rparr> roots
                  src_fs outputPath scanPath = Inr (Some (?archive, []))"
    by (simp add: runExport_def scan collect zip)
  \<comment> \<open>import\<close>
  have manifest: "readManifest y ?archive = Inr ?manifest"
    by (simp add: unmarshal zip_Open_def io_ReadAll_def)
  let ?rm = "buildRepoMap (Repos ?manifest) Map.empty"
  have rm: "?rm ''my-app'' = Some ?repo" by simp
  have skip: "\<forall>z \<in> set (?man # patterns). \<not> processed ?rm z"
  proof
    fix z assume "z \<in> set (?man # patterns)"
    with names have "Zip_Name z = ''manifest.yaml'' \<or> Zip_Name z = ''patterns.yaml''"
      by auto
    then have "\<not> strings_HasPrefix (Zip_Name z) ''files/''"
      by (auto simp: strings_HasPrefix_def)
    then show "\<not> processed ?rm z" by (rule not_processed_other)
  qed
  have "\<exists>fs'. importEntries flags ?rm [?e1, ?e2] (dst_fs, []) = (fs', ?printed)
           \<and> fs' ?p1 = Some (File env_bytes env_mode)
           \<and> fs' ?p2 = Some (File local_bytes local_mode)"
  proof (rule restore_two_entries [where flags = flags and fs = dst_fs and repoMap = ?rm
        and repo = ?repo])
    show "importBaseDir flags = ''/tmp/restore''" by (rule flags(1))
    show "\<forall>p. strings_HasPrefix p ''/tmp/restore/'' \<longrightarrow> dst_fs p = None" by (rule empty)
    show "(\<exists>k. dst_fs ''/tmp/restore'' = Some (Dir k))
               \<or> (dst_fs ''/tmp/restore'' = None
                    \<and> (\<forall>bytes mode. dst_fs ''/tmp'' \<noteq> Some (File bytes mode)))"
      by (rule dest)
    show "?rm ''my-app'' = Some ?repo" by (rule rm)
    show "Repo_Name ?repo = ''my-app''" by simp
  qed
  then obtain fs' where two: "importEntries flags ?rm [?e1, ?e2] (dst_fs, []) = (fs', ?printed)"
    and r1: "fs' ?p1 = Some (File env_bytes env_mode)"
    and r2: "fs' ?p2 = Some (File local_bytes local_mode)"
    by blast
  have "?archive = (?man # patterns) @ [?e1, ?e2]" by simp
  then have files: "importFiles flags dst_fs ?archive ?manifest = (fs', ?printed)"
    unfolding importFiles_def
    by (simp only: importEntries_append importEntries_unprocessed [OF skip] two)
  let ?restored = "fst (importPatterns dst_m fs' ?archive)"
  let ?messages = "announced flags dst_fs ?manifest @ map FileLine ?printed
                     @ closing (snd (importPatterns dst_m fs' ?archive))"
  have run: "runImport y dst_m flags stdin dst_fs ?archive = Inr (?restored, ?messages)"
    using runImport_confirmed [OF flags(2,3) manifest, of dst_m dst_fs] files by simp
  have lines: "fileLines ?messages = ?printed"
    by (simp only: fileLines_append fileLines_announced fileLines_FileLine fileLines_closing
          append_Nil append_Nil2)
  have j1: "filepath_Join [''/tmp/restore'', ''my-app'', ''.env''] = ?p1"
    and j2: "filepath_Join [''/tmp/restore'', ''my-app'', ''config/.env.local''] = ?p2"
    by code_simp+
  have "dst_fs ?p1 = None" and "dst_fs ?p2 = None"
    using empty by (simp_all add: strings_HasPrefix_def)
  then have absent: "\<not> fileExists dst_fs ?p1" "\<not> fileExists dst_fs ?p2"
    by (simp_all add: fileExists_def os_Stat_def)
  have listed: "listedFiles ?messages = [(''.env'', False), (''config/.env.local'', False)]"
    by (simp add: listedFiles_append listedFiles_announced listedFiles_FileLine
          listedFiles_closing resolveDestPath_def flags(1) j1 j2 absent)
  have q1: "?p1 \<noteq> pre @ ''patterns.yaml''" for pre
  proof
    assume "?p1 = pre @ ''patterns.yaml''"
    then have "rev ?p1 = rev (pre @ ''patterns.yaml'')" by (rule arg_cong)
    then show False by simp
  qed
  have q2: "?p2 \<noteq> pre @ ''patterns.yaml''" for pre
  proof
    assume "?p2 = pre @ ''patterns.yaml''"
    then have "rev ?p2 = rev (pre @ ''patterns.yaml'')" by (rule arg_cong)
    then show False by simp
  qed
  have k1: "?restored ?p1 = Some (File env_bytes env_mode)"
    using r1 q1 by (rule importPatterns_frame)
  have k2: "?restored ?p2 = Some (File local_bytes local_mode)"
    using r2 q2 by (rule importPatterns_frame)
  have counts: "successes (fileLines ?messages) = 2" "failures (fileLines ?messages) = 0"
    unfolding lines by (simp_all add: successes_def failures_def)
  from export run listed lines counts k1 k2 show ?thesis by blast
qed

theorem export_import_round_trip_witness:
  "filepath_Base ''/home/u/my-app'' = ''my-app''
   \<and> ignoredLines [''!! .env'', ''!! config/.env.local''] = [''.env'', ''config/.env.local'']
   \<and> os_Stat round_trip_fs (filepath_Join [''/home/u/my-app'', ''.env''])
        = Some (File ''A=1'' 384)
   \<and> os_Stat round_trip_fs (filepath_Join [''/home/u/my-app'', ''config/.env.local''])
        = Some (File ''B=22'' 420)
   \<and> importBaseDir restore_flags = ''/tmp/restore''
   \<and> confirmed restore_flags []
   \<and> prepared_fs ''/tmp/restore'' = Some (Dir 448)
   \<and> (\<exists>archive restored messages.
         runExport round_trip_yaml round_trip_machine
             \<lparr>exportRecursive = False, exportIncludeDeps = False\<rparr> []
             round_trip_fs ''/home/u/backup.zip'' ''.'' = Inr (Some (archive, []))
         \<and> runImport round_trip_yaml example_machine restore_flags [] prepared_fs archive
             = Inr (restored, messages)
         \<and> fileLines messages = [Extracted ''/tmp/restore/my-app/.env'',
                                  Extracted ''/tmp/restore/my-app/config/.env.local'']
         \<and> restored ''/tmp/restore/my-app/.env'' = Some (File ''A=1'' 384)
         \<and> restored ''/tmp/restore/my-app/config/.env.local'' = Some (File ''B=22'' 420))"
proof -
  let ?out = "''/home/u/backup.zip''"
  let ?repoPath = "''/home/u/my-app''"
  have base: "filepath_Base ?repoPath = ''my-app''" by code_simp
  have ignored: "ignoredLines [''!! .env'', ''!! config/.env.local'']
                   = [''.env'', ''config/.env.local'']" by code_simp
  have f1: "os_Stat round_trip_fs (filepath_Join [?repoPath, ''.env''])
              = Some (File ''A=1'' 384)" by code_simp
  have f2: "os_Stat round_trip_fs (filepath_Join [?repoPath, ''config/.env.local''])
              = Some (File ''B=22'' 420)" by code_simp
  have b: "importBaseDir restore_flags = ''/tmp/restore''" by (simp add: restore_flags_def)
  have c: "confirmed restore_flags []" by (simp add: confirmed_def restore_flags_def)
  have d: "prepared_fs ''/tmp/restore'' = Some (Dir 448)" by (simp add: prepared_fs_def)
  have "\<exists>archive restored messages.
         runExport round_trip_yaml round_trip_machine
             \<lparr>exportRecursive = False, exportIncludeDeps = False\<rparr> []
             round_trip_fs ?out ''.'' = Inr (Some (archive, []))
         \<and> runImport round_trip_yaml example_machine restore_flags [] prepared_fs archive
             = Inr (restored, messages)
         \<and> listedFiles messages = [(''.env'', False), (''config/.env.local'', False)]
         \<and> fileLines messages = [Extracted ''/tmp/restore/my-app/.env'',
                                  Extracted ''/tmp/restore/my-app/config/.env.local'']
         \<and> successes (fileLines messages) = 2
         \<and> failures (fileLines messages) = 0
         \<and> restored ''/tmp/restore/my-app/.env'' = Some (File ''A=1'' 384)
         \<and> restored ''/tmp/restore/my-app/config/.env.local'' = Some (File ''B=22'' 420)"
  proof (rule export_import_round_trip [where src_m = round_trip_machine
        and scanPath = "''.''" and repoPath = ?repoPath
        and statusLines = "[''!! .env'', ''!! config/.env.local'']"
        and src_fs = round_trip_fs and outputPath = ?out
        and created = "round_trip_fs(?out \<mapsto> File [] 438)"
        and y = round_trip_yaml and data = "''version: 1''" and flags = restore_flags
        and dst_fs = prepared_fs])
    show "filepath_Abs round_trip_machine ''.'' = Inr ?repoPath" by code_simp
    show "filepath_Abs round_trip_machine ?repoPath = Inr ?repoPath" by code_simp
    show "filepath_Base ?repoPath = ''my-app''" by (rule base)
    show "gitRevParse round_trip_machine ?repoPath" by (simp add: round_trip_machine_def)
    show "gitStatusIgnored round_trip_machine ?repoPath
            = Some [''!! .env'', ''!! config/.env.local'']"
      by (simp add: round_trip_machine_def)
    show "ignoredLines [''!! .env'', ''!! config/.env.local'']
            = [''.env'', ''config/.env.local'']" by (rule ignored)
    show "os_Stat round_trip_fs (filepath_Join [?repoPath, ''.env''])
            = Some (File ''A=1'' 384)" by (rule f1)
    show "os_Stat round_trip_fs (filepath_Join [?repoPath, ''config/.env.local''])
            = Some (File ''B=22'' 420)" by (rule f2)
    have "os_Stat round_trip_fs ?out = None" by code_simp
    moreover have "os_Stat round_trip_fs (filepath_Dir ?out) = Some (Dir 493)" by code_simp
    ultimately show "os_Create round_trip_fs ?out = Inr (round_trip_fs(?out \<mapsto> File [] 438))"
      by (intro os_Create_new [where k = 493]) simp_all
    show "?out \<noteq> filepath_Join [?repoPath, ''.env'']" by code_simp
    show "?out \<noteq> filepath_Join [?repoPath, ''config/.env.local'']" by code_simp
    show "yaml_Marshal round_trip_yaml
            \<lparr>Version = 1, CreatedAt = Now round_trip_machine,
               Machine = Hostname round_trip_machine,
               Repos = [\<lparr>Repo_Name = ''my-app'', Repo_Path = ?repoPath,
                         Repo_Files = [''.env'', ''config/.env.local'']\<rparr>]\<rparr>
            = Inr ''version: 1''"
      by (simp add: round_trip_yaml_def)
    show "yaml_Unmarshal round_trip_yaml ''version: 1''
            = Inr \<lparr>Version = 1, CreatedAt = Now round_trip_machine,
                    Machine = Hostname round_trip_machine,
                    Repos = [\<lparr>Repo_Name = ''my-app'', Repo_Path = ?repoPath,
                              Repo_Files = [''.env'', ''config/.env.local'']\<rparr>]\<rparr>"
      by (simp add: round_trip_yaml_def round_trip_manifest_def round_trip_machine_def)
    show "importBaseDir restore_flags = ''/tmp/restore''" by (rule b)
    show "\<not> importDryRun restore_flags" by (simp add: restore_flags_def)
    show "confirmed restore_flags []" by (rule c)
    show "\<forall>p. strings_HasPrefix p ''/tmp/restore/'' \<longrightarrow> prepared_fs p = None"
      by (auto simp: prepared_fs_def strings_HasPrefix_def)
    show "(\<exists>k. prepared_fs ''/tmp/restore'' = Some (Dir k))
               \<or> (prepared_fs ''/tmp/restore'' = None
                    \<and> (\<forall>bytes mode. prepared_fs ''/tmp'' \<noteq> Some (File bytes mode)))"
      by (simp add: prepared_fs_def)
  qed
  then have "\<exists>archive restored messages.
         runExport round_trip_yaml round_trip_machine
             \<lparr>exportRecursive = False, exportIncludeDeps = False\<rparr> []
             round_trip_fs ?out ''.'' = Inr (Some (archive, []))
         \<and> runImport round_trip_yaml example_machine restore_flags [] prepared_fs archive
             = Inr (restored, messages)
         \<and> fileLines messages = [Extracted ''/tmp/restore/my-app/.env'',
                                  Extracted ''/tmp/restore/my-app/config/.env.local'']
         \<and> restored ''/tmp/restore/my-app/.env'' = Some (File ''A=1'' 384)
         \<and> restored ''/tmp/restore/my-app/config/.env.local'' = Some (File ''B=22'' 420)"
    by blast
  with base ignored f1 f2 b c d show ?thesis by (intro conjI)
qed

end
